theory Spec2Isabelle
  imports Complex_Main
begin

section \<open>Python values, exceptions and list access\<close>

text \<open>
  The module \<^verbatim>\<open>opencmiss/maths/vectorops.py\<close> works on Python lists of numbers.
  A vector is a \<open>real list\<close>, a matrix a \<open>real list list\<close> (a list of rows).
  Numbers are modelled as reals: the arithmetic of finite floats with rounding left out,
  Python 3 true division. What Python raises is a value of the type \<open>error\<close>; a function
  that can raise returns \<open>error + 'a\<close>, with \<open>Inl\<close> for the exception.
\<close>

datatype error = ValueError string | IndexError | ZeroDivisionError

text \<open>The one exception the module raises itself, in \<^verbatim>\<open>vector_matrix_mult\<close>.\<close>

definition mismatched_rows :: error where
  "mismatched_rows = ValueError ''vector_matrix_mult mismatched rows''"

text \<open>Sequencing of two computations: the exception of the first one propagates.\<close>

definition bind :: "error + 'a \<Rightarrow> ('a \<Rightarrow> error + 'b) \<Rightarrow> error + 'b" where
  "bind r f = (case r of Inl e \<Rightarrow> Inl e | Inr x \<Rightarrow> f x)"

text \<open>A unary function or operator applied to a sub-expression.\<close>

definition lift1 :: "('a \<Rightarrow> 'b) \<Rightarrow> error + 'a \<Rightarrow> error + 'b" where
  "lift1 f x = bind x (\<lambda>a. Inr (f a))"

text \<open>A binary operator on two sub-expressions, evaluated left to right.\<close>

definition lift2 :: "('a \<Rightarrow> 'b \<Rightarrow> 'c) \<Rightarrow> error + 'a \<Rightarrow> error + 'b \<Rightarrow> error + 'c" where
  "lift2 f x y = bind x (\<lambda>a. bind y (\<lambda>b. Inr (f a b)))"

text \<open>\<^verbatim>\<open>xs[i]\<close> for an index that is never negative: out of range raises IndexError.\<close>

definition item :: "'a list \<Rightarrow> nat \<Rightarrow> error + 'a" where
  "item xs i = (if i < length xs then Inr (xs ! i) else Inl IndexError)"

text \<open>\<^verbatim>\<open>m[i][j]\<close>.\<close>

definition item2 :: "'a list list \<Rightarrow> nat \<Rightarrow> nat \<Rightarrow> error + 'a" where
  "item2 m i j = bind (item m i) (\<lambda>row. item row j)"

text \<open>\<^verbatim>\<open>a / b\<close> on numbers: a zero divisor raises ZeroDivisionError, for floats as for ints.\<close>

definition py_div :: "real \<Rightarrow> real \<Rightarrow> error + real" where
  "py_div a b = (if b = 0 then Inl ZeroDivisionError else Inr (a / b))"

definition divide :: "error + real \<Rightarrow> error + real \<Rightarrow> error + real" where
  "divide x y = bind x (\<lambda>a. bind y (\<lambda>b. py_div a b))"

text \<open>\<^verbatim>\<open>math.sqrt\<close>: a negative argument raises \<^verbatim>\<open>ValueError('math domain error')\<close>.\<close>

definition py_sqrt :: "real \<Rightarrow> error + real" where
  "py_sqrt x = (if x < 0 then Inl (ValueError ''math domain error'') else Inr (sqrt x))"

text \<open>\<^verbatim>\<open>math.fabs\<close>.\<close>

definition fabs :: "real \<Rightarrow> real" where
  "fabs x = \<bar>x\<bar>"

text \<open>
  \<^verbatim>\<open>math.atan2(y, x)\<close>: the angle of the point \<open>(x, y)\<close> in \<open>(-\<pi>, \<pi>]\<close>, and \<open>0\<close> at the
  origin. (The sign of a floating-point zero is not modelled.)
\<close>

definition atan2 :: "real \<Rightarrow> real \<Rightarrow> real" where
  "atan2 y x =
     (if 0 < x then arctan (y / x)
      else if x < 0 then (if 0 \<le> y then arctan (y / x) + pi else arctan (y / x) - pi)
      else if 0 < y then pi / 2
      else if y < 0 then - (pi / 2)
      else 0)"

text \<open>
  A list comprehension \<^verbatim>\<open>[f(x) for x in xs]\<close> whose body can raise: the elements are
  computed in order and the first exception ends the comprehension.
\<close>

fun collect :: "('a \<Rightarrow> error + 'b) \<Rightarrow> 'a list \<Rightarrow> error + 'b list" where
  "collect f [] = Inr []"
| "collect f (x # xs) =
     (case f x of
        Inl e \<Rightarrow> Inl e
      | Inr y \<Rightarrow> (case collect f xs of Inl e \<Rightarrow> Inl e | Inr ys \<Rightarrow> Inr (y # ys)))"

text \<open>
  \<^verbatim>\<open>sum(f(x) for x in xs)\<close>: the terms are computed in order, then added. (Python adds
  from the left, starting from \<open>0\<close>; on reals the order of the additions is immaterial.)
\<close>

definition sum_gen :: "('a \<Rightarrow> error + real) \<Rightarrow> 'a list \<Rightarrow> error + real" where
  "sum_gen f xs = bind (collect f xs) (\<lambda>ys. Inr (sum_list ys))"

section \<open>Vector arithmetic\<close>

definition magnitude :: "real list \<Rightarrow> error + real" where
  "magnitude v =
     bind (sum_gen (\<lambda>i. lift2 (*) (item v i) (item v i)) [0..<length v]) py_sqrt"

definition add :: "real list \<Rightarrow> real list \<Rightarrow> error + real list" where
  "add u v = collect (\<lambda>i. lift2 (+) (item u i) (item v i)) [0..<length u]"

definition sub :: "real list \<Rightarrow> real list \<Rightarrow> error + real list" where
  "sub u v = collect (\<lambda>i. lift2 (-) (item u i) (item v i)) [0..<length u]"

definition dot :: "real list \<Rightarrow> real list \<Rightarrow> error + real" where
  "dot u v = sum_gen (\<lambda>i. lift2 (*) (item u i) (item v i)) [0..<length u]"

definition eldiv :: "real list \<Rightarrow> real list \<Rightarrow> error + real list" where
  "eldiv u v = collect (\<lambda>i. divide (item u i) (item v i)) [0..<length u]"

definition elmult :: "real list \<Rightarrow> real list \<Rightarrow> error + real list" where
  "elmult u v = collect (\<lambda>i. lift2 (*) (item u i) (item v i)) [0..<length u]"

definition normalize_py :: "real list \<Rightarrow> error + real list" where
  "normalize_py v =
     bind (magnitude v) (\<lambda>vmag.
       collect (\<lambda>i. divide (item v i) (Inr vmag)) [0..<length v])"

definition cross :: "real list \<Rightarrow> real list \<Rightarrow> error + real list" where
  "cross u v =
     bind (lift2 (-) (lift2 (*) (item u 1) (item v 2)) (lift2 (*) (item u 2) (item v 1))) (\<lambda>c0.
     bind (lift2 (-) (lift2 (*) (item u 2) (item v 0)) (lift2 (*) (item u 0) (item v 2))) (\<lambda>c1.
     bind (lift2 (-) (lift2 (*) (item u 0) (item v 1)) (lift2 (*) (item u 1) (item v 0))) (\<lambda>c2.
     Inr [c0, c1, c2])))"

definition mult :: "real list \<Rightarrow> real \<Rightarrow> error + real list" where
  "mult u c = collect (\<lambda>i. lift2 (*) (item u i) (Inr c)) [0..<length u]"

definition div_py :: "real list \<Rightarrow> real \<Rightarrow> error + real list" where
  "div_py u c = collect (\<lambda>i. divide (item u i) (Inr c)) [0..<length u]"

section \<open>Matrix operations\<close>

text \<open>
  \<^verbatim>\<open>qw, qx, qy, qz = norm_q\<close> raises a ValueError of the interpreter when the list does
  not have four elements (the interpreter's message also gives the counts).
\<close>

definition quaternion_to_rotation_matrix :: "real list \<Rightarrow> error + real list list" where
  "quaternion_to_rotation_matrix quaternion =
     bind (magnitude quaternion) (\<lambda>mag_q.
     bind (div_py quaternion mag_q) (\<lambda>norm_q.
       (case norm_q of
          [qw, qx, qy, qz] \<Rightarrow>
            Inr [[qw * qw + qx * qx - qy * qy - qz * qz, 2 * qx * qy - 2 * qw * qz,
                  2 * qx * qz + 2 * qw * qy],
                 [2 * qx * qy + 2 * qw * qz, qw * qw - qx * qx + qy * qy - qz * qz,
                  2 * qy * qz - 2 * qw * qx],
                 [2 * qx * qz - 2 * qw * qy, 2 * qy * qz + 2 * qw * qx,
                  qw * qw - qx * qx - qy * qy + qz * qz]]
        | _ \<Rightarrow>
            Inl (ValueError (if length norm_q < 4 then ''not enough values to unpack''
                             else ''too many values to unpack'')))))"

definition matrix_constant_mult :: "real list list \<Rightarrow> real \<Rightarrow> error + real list list" where
  "matrix_constant_mult m c = collect (\<lambda>row_m. mult row_m c) m"

definition matrix_vector_mult :: "real list list \<Rightarrow> real list \<Rightarrow> error + real list" where
  "matrix_vector_mult m v = collect (\<lambda>row_m. dot row_m v) m"

text \<open>
  The loop \<^verbatim>\<open>for c in range(0, columns): result.append(...)\<close> of
  \<^verbatim>\<open>vector_matrix_mult\<close>, with the list built so far as accumulator.
\<close>

fun vector_matrix_mult_loop ::
  "real list \<Rightarrow> real list list \<Rightarrow> nat \<Rightarrow> nat list \<Rightarrow> real list \<Rightarrow> error + real list" where
  "vector_matrix_mult_loop v m rows [] result = Inr result"
| "vector_matrix_mult_loop v m rows (c # cs) result =
     bind (sum_gen (\<lambda>r. lift2 (*) (item v r) (item2 m r c)) [0..<rows]) (\<lambda>s.
       vector_matrix_mult_loop v m rows cs (result @ [s]))"

definition vector_matrix_mult :: "real list \<Rightarrow> real list list \<Rightarrow> error + real list" where
  "vector_matrix_mult v m =
     (let rows = length m in
      if length v \<noteq> rows then Inl mismatched_rows
      else bind (item m 0) (\<lambda>m0.
        let columns = length m0 in
        vector_matrix_mult_loop v m rows [0..<columns] []))"

definition matrix_mult :: "real list list \<Rightarrow> real list list \<Rightarrow> error + real list list" where
  "matrix_mult a b = collect (\<lambda>row_a. vector_matrix_mult row_a b) a"

text \<open>
  \<^verbatim>\<open>zip(*a)\<close>: the next tuple takes one element from every row, and the iteration ends
  as soon as one row is exhausted; with no row at all it yields nothing.
  \<^verbatim>\<open>list(map(list, ...))\<close> turns the tuples into the rows of the result.
\<close>

function zip_star :: "'a list list \<Rightarrow> 'a list list" where
  "zip_star a =
     (if a = [] \<or> [] \<in> set a then [] else map hd a # zip_star (map tl a))"
  by pat_completeness auto
termination
proof (relation "measure (\<lambda>a. length (hd a))")
  show "wf (measure (\<lambda>a::'a list list. length (hd a)))"
    by simp
next
  fix a :: "'a list list"
  assume "\<not> (a = [] \<or> [] \<in> set a)"
  then obtain r rs where "a = r # rs" and "r \<noteq> []"
    by (cases a) auto
  then show "(map tl a, a) \<in> measure (\<lambda>a. length (hd a))"
    by simp
qed

declare zip_star.simps [simp del]

definition transpose_py :: "'a list list \<Rightarrow> 'a list list" where
  "transpose_py a = zip_star a"

section \<open>Rotation representations\<close>

definition euler_to_rotation_matrix :: "real list \<Rightarrow> error + real list list" where
  "euler_to_rotation_matrix euler_angles =
     bind (item euler_angles 0) (\<lambda>e0. let cos_azimuth = cos e0 in
     bind (item euler_angles 0) (\<lambda>e0. let sin_azimuth = sin e0 in
     bind (item euler_angles 1) (\<lambda>e1. let cos_elevation = cos e1 in
     bind (item euler_angles 1) (\<lambda>e1. let sin_elevation = sin e1 in
     bind (item euler_angles 2) (\<lambda>e2. let cos_roll = cos e2 in
     bind (item euler_angles 2) (\<lambda>e2. let sin_roll = sin e2 in
     Inr [[cos_azimuth * cos_elevation,
           cos_azimuth * sin_elevation * sin_roll - sin_azimuth * cos_roll,
           cos_azimuth * sin_elevation * cos_roll + sin_azimuth * sin_roll],
          [sin_azimuth * cos_elevation,
           sin_azimuth * sin_elevation * sin_roll + cos_azimuth * cos_roll,
           sin_azimuth * sin_elevation * cos_roll - cos_azimuth * sin_roll],
          [- sin_elevation, cos_elevation * sin_roll, cos_elevation * cos_roll]]))))))"

definition MATRIX_TO_EULER_TOLERANCE :: real where
  "MATRIX_TO_EULER_TOLERANCE = 1 / 10 ^ 12"

text \<open>
  \<^verbatim>\<open>rotation_matrix_to_euler\<close> fills the local list \<^verbatim>\<open>euler_angles\<close> by index; the
  assignments are list updates of the model, in the order of the source.
\<close>

definition rotation_matrix_to_euler :: "real list list \<Rightarrow> error + real list" where
  "rotation_matrix_to_euler matrix =
     (let euler_angles = [0, 0, 0] in
      bind (item2 matrix 0 0) (\<lambda>m00.
      if fabs m00 > MATRIX_TO_EULER_TOLERANCE then
        bind (lift2 atan2 (item2 matrix 1 0) (item2 matrix 0 0)) (\<lambda>a0.
        let euler_angles = euler_angles[0 := a0] in
        bind (lift2 atan2 (item2 matrix 2 1) (item2 matrix 2 2)) (\<lambda>a2.
        let euler_angles = euler_angles[2 := a2] in
        bind (lift2 atan2 (lift1 uminus (item2 matrix 2 0))
                (divide (item2 matrix 0 0) (lift1 cos (item euler_angles 0))))
          (\<lambda>a1.
        let euler_angles = euler_angles[1 := a1] in
        Inr euler_angles)))
      else
        bind (item2 matrix 0 1) (\<lambda>m01.
        if fabs m01 > MATRIX_TO_EULER_TOLERANCE then
          bind (lift2 atan2 (item2 matrix 1 0) (item2 matrix 0 0)) (\<lambda>a0.
          let euler_angles = euler_angles[0 := a0] in
          bind (lift2 atan2 (item2 matrix 2 1) (item2 matrix 2 2)) (\<lambda>a2.
          let euler_angles = euler_angles[2 := a2] in
          bind (lift2 atan2 (lift1 uminus (item2 matrix 2 0))
                  (divide (item2 matrix 1 0) (lift1 sin (item euler_angles 0))))
            (\<lambda>a1.
          let euler_angles = euler_angles[1 := a1] in
          Inr euler_angles)))
        else
          bind (lift2 atan2 (lift1 uminus (item2 matrix 2 0)) (Inr 0)) (\<lambda>a1.
          let euler_angles = euler_angles[1 := a1] in
          let euler_angles = euler_angles[0 := 0] in
          bind (lift2 atan2 (lift1 uminus (item2 matrix 1 2))
                  (lift2 (*) (lift1 uminus (item2 matrix 0 2)) (item2 matrix 2 0)))
            (\<lambda>a2.
          let euler_angles = euler_angles[2 := a2] in
          Inr euler_angles)))))"

definition axis_angle_to_quaternion :: "real list \<Rightarrow> real \<Rightarrow> error + real list" where
  "axis_angle_to_quaternion axis angle =
     (let sin_half_angle = sin (angle / 2) in
      bind (lift2 (*) (item axis 0) (Inr sin_half_angle)) (\<lambda>q1.
      bind (lift2 (*) (item axis 1) (Inr sin_half_angle)) (\<lambda>q2.
      bind (lift2 (*) (item axis 2) (Inr sin_half_angle)) (\<lambda>q3.
      Inr [cos (angle / 2), q1, q2, q3]))))"

definition axis_angle_to_rotation_matrix :: "real list \<Rightarrow> real \<Rightarrow> error + real list list" where
  "axis_angle_to_rotation_matrix axis angle =
     bind (axis_angle_to_quaternion axis angle) quaternion_to_rotation_matrix"

section \<open>Reshape\<close>

text \<open>
  \<^verbatim>\<open>reshape(a, new_shape)\<close> branches on the run-time type of \<^verbatim>\<open>new_shape\<close>, and the
  two branches read \<^verbatim>\<open>a\<close> at different types (a flat sequence, a sequence of rows) and
  return different types (a list of rows, a flat list). Each branch is a function
  of the model: \<open>reshape_tuple\<close> for \<^verbatim>\<open>isinstance(new_shape, tuple)\<close> with the pair
  \<^verbatim>\<open>(new_shape[0], new_shape[1])\<close>, \<open>reshape_int\<close> for \<^verbatim>\<open>isinstance(new_shape, int)\<close>.
  \<^verbatim>\<open>range(n)\<close> is empty for a negative \<open>n\<close>, hence the \<open>nat\<close> of the bounds.
  (For a \<^verbatim>\<open>new_shape\<close> of any other type the source returns the empty list it
  started with; the model has no such argument.)
\<close>

text \<open>The inner loop: \<open>k\<close> more elements to append to \<open>row\<close>, reading at \<open>index\<close>.\<close>

fun reshape_row :: "'a list \<Rightarrow> nat \<Rightarrow> nat \<Rightarrow> 'a list \<Rightarrow> error + ('a list \<times> nat)" where
  "reshape_row a 0 index row = Inr (row, index)"
| "reshape_row a (Suc k) index row =
     bind (item a index) (\<lambda>x. reshape_row a k (index + 1) (row @ [x]))"

text \<open>The outer loop: \<open>k\<close> more rows to append to \<open>b\<close>.\<close>

fun reshape_rows :: "'a list \<Rightarrow> nat \<Rightarrow> nat \<Rightarrow> nat \<Rightarrow> 'a list list \<Rightarrow> error + 'a list list" where
  "reshape_rows a 0 cols index b = Inr b"
| "reshape_rows a (Suc k) cols index b =
     bind (reshape_row a cols index []) (\<lambda>(row, index').
       reshape_rows a k cols index' (b @ [row]))"

definition reshape_tuple :: "'a list \<Rightarrow> int \<times> int \<Rightarrow> error + 'a list list" where
  "reshape_tuple a new_shape = reshape_rows a (nat (fst new_shape)) (nat (snd new_shape)) 0 []"

definition reshape_int :: "'a list list \<Rightarrow> int \<Rightarrow> 'a list" where
  "reshape_int a new_shape =
     (let flat_list = concat a in
      if 0 \<le> new_shape \<and> new_shape < int (length flat_list)
      then take (nat new_shape) flat_list
      else flat_list)"

section \<open>The composition of the two conversions, as the specification words it\<close>

text \<open>
  The specification describes \<^verbatim>\<open>axis_angle_to_rotation_matrix\<close> as the composition of
  \<^verbatim>\<open>axis_angle_to_quaternion\<close> and \<^verbatim>\<open>quaternion_to_rotation_matrix\<close>: the quaternion
  of the axis and angle is computed first and, when that succeeds, converted.
\<close>

definition compose_conversions :: "real list \<Rightarrow> real \<Rightarrow> error + real list list" where
  "compose_conversions axis angle =
     (case axis_angle_to_quaternion axis angle of
        Inl e \<Rightarrow> Inl e
      | Inr q \<Rightarrow> quaternion_to_rotation_matrix q)"

section \<open>The interface of the module\<close>

text \<open>
  The functions the module exports, as one datatype of calls, and the result of running a
  call. (The legacy names of the module are bound to the same functions.) It serves to
  state properties of every operation of the library at once. The type parameters are
  what stands for a vector and for a matrix: the lists themselves here, their addresses
  in the store further down.
\<close>

datatype result = Number real | Vector "real list" | Matrix "real list list"

datatype ('v, 'm) call =
    Magnitude 'v
  | Add 'v 'v
  | Sub 'v 'v
  | Dot 'v 'v
  | Eldiv 'v 'v
  | Elmult 'v 'v
  | Normalize 'v
  | Cross 'v 'v
  | Mult 'v real
  | Div 'v real
  | QuaternionToRotationMatrix 'v
  | MatrixConstantMult 'm real
  | MatrixVectorMult 'm 'v
  | VectorMatrixMult 'v 'm
  | MatrixMult 'm 'm
  | Transpose 'm
  | EulerToRotationMatrix 'v
  | RotationMatrixToEuler 'm
  | AxisAngleToQuaternion 'v real
  | AxisAngleToRotationMatrix 'v real
  | ReshapeTuple 'v "int \<times> int"
  | ReshapeInt 'm int

fun run :: "(real list, real list list) call \<Rightarrow> error + result" where
  "run (Magnitude v) = lift1 Number (magnitude v)"
| "run (Add u v) = lift1 Vector (add u v)"
| "run (Sub u v) = lift1 Vector (sub u v)"
| "run (Dot u v) = lift1 Number (dot u v)"
| "run (Eldiv u v) = lift1 Vector (eldiv u v)"
| "run (Elmult u v) = lift1 Vector (elmult u v)"
| "run (Normalize v) = lift1 Vector (normalize_py v)"
| "run (Cross u v) = lift1 Vector (cross u v)"
| "run (Mult u c) = lift1 Vector (mult u c)"
| "run (Div u c) = lift1 Vector (div_py u c)"
| "run (QuaternionToRotationMatrix q) = lift1 Matrix (quaternion_to_rotation_matrix q)"
| "run (MatrixConstantMult m c) = lift1 Matrix (matrix_constant_mult m c)"
| "run (MatrixVectorMult m v) = lift1 Vector (matrix_vector_mult m v)"
| "run (VectorMatrixMult v m) = lift1 Vector (vector_matrix_mult v m)"
| "run (MatrixMult a b) = lift1 Matrix (matrix_mult a b)"
| "run (Transpose a) = Inr (Matrix (transpose_py a))"
| "run (EulerToRotationMatrix e) = lift1 Matrix (euler_to_rotation_matrix e)"
| "run (RotationMatrixToEuler m) = lift1 Vector (rotation_matrix_to_euler m)"
| "run (AxisAngleToQuaternion axis angle) = lift1 Vector (axis_angle_to_quaternion axis angle)"
| "run (AxisAngleToRotationMatrix axis angle) =
     lift1 Matrix (axis_angle_to_rotation_matrix axis angle)"
| "run (ReshapeTuple a new_shape) = lift1 Matrix (reshape_tuple a new_shape)"
| "run (ReshapeInt a new_shape) = Inr (Vector (reshape_int a new_shape))"

section \<open>The store: lists as objects with an identity\<close>

text \<open>
  For the claims about aliasing the lists are objects in a store. An address is a position
  in the store, a new object is put at the end, so its address is the length of the store
  before. A list of numbers holds the numbers themselves (floats are immutable), a list
  of rows holds the addresses of its rows. Every operation takes the store and the
  addresses of its arguments and returns the store after the call with the exception, the
  number or the address of the list it returns.
\<close>

datatype object = Numbers "real list" | Rows "nat list"

type_synonym store = "object list"

datatype outcome = Float real | Ref nat

definition vector_at :: "store \<Rightarrow> nat \<Rightarrow> real list" where
  "vector_at s a = (case s ! a of Numbers xs \<Rightarrow> xs | Rows _ \<Rightarrow> [])"

definition rows_at :: "store \<Rightarrow> nat \<Rightarrow> nat list" where
  "rows_at s a = (case s ! a of Rows rs \<Rightarrow> rs | Numbers _ \<Rightarrow> [])"

definition matrix_at :: "store \<Rightarrow> nat \<Rightarrow> real list list" where
  "matrix_at s a = map (vector_at s) (rows_at s a)"

text \<open>Sequencing with the store threaded through; an exception keeps the store reached.\<close>

definition bind_s ::
  "store \<times> (error + 'a) \<Rightarrow> (store \<Rightarrow> 'a \<Rightarrow> store \<times> (error + 'b)) \<Rightarrow> store \<times> (error + 'b)" where
  "bind_s r f = (case r of (s, Inl e) \<Rightarrow> (s, Inl e) | (s, Inr x) \<Rightarrow> f s x)"

text \<open>A list display, a comprehension, a slice or \<^verbatim>\<open>list(...)\<close>: a new list object.\<close>

definition new :: "store \<Rightarrow> object \<Rightarrow> store \<times> (error + nat)" where
  "new s ob = (s @ [ob], Inr (length s))"

text \<open>\<^verbatim>\<open>xs.append(x)\<close> and \<^verbatim>\<open>xs[i] = x\<close>: the object at the address of \<^verbatim>\<open>xs\<close> changes.\<close>

definition append_number :: "store \<Rightarrow> nat \<Rightarrow> real \<Rightarrow> store \<times> (error + unit)" where
  "append_number s p x = (s[p := Numbers (vector_at s p @ [x])], Inr ())"

definition append_row :: "store \<Rightarrow> nat \<Rightarrow> nat \<Rightarrow> store \<times> (error + unit)" where
  "append_row s p q = (s[p := Rows (rows_at s p @ [q])], Inr ())"

definition set_number :: "store \<Rightarrow> nat \<Rightarrow> nat \<Rightarrow> real \<Rightarrow> store \<times> (error + unit)" where
  "set_number s p i x =
     (if i < length (vector_at s p) then (s[p := Numbers ((vector_at s p)[i := x])], Inr ())
      else (s, Inl IndexError))"

text \<open>A display of displays \<^verbatim>\<open>[[...], [...]]\<close>: the rows are built first, then the list of them.\<close>

fun new_rows :: "store \<Rightarrow> real list list \<Rightarrow> store \<times> (error + nat list)" where
  "new_rows s [] = (s, Inr [])"
| "new_rows s (row # rows) =
     bind_s (new s (Numbers row)) (\<lambda>s p.
     bind_s (new_rows s rows) (\<lambda>s ps. (s, Inr (p # ps))))"

definition new_matrix :: "store \<Rightarrow> real list list \<Rightarrow> store \<times> (error + nat)" where
  "new_matrix s rows = bind_s (new_rows s rows) (\<lambda>s ps. new s (Rows ps))"

text \<open>A comprehension whose body is a call that returns a list.\<close>

fun collect_s ::
  "(store \<Rightarrow> 'a \<Rightarrow> store \<times> (error + nat)) \<Rightarrow> store \<Rightarrow> 'a list \<Rightarrow> store \<times> (error + nat list)" where
  "collect_s f s [] = (s, Inr [])"
| "collect_s f s (x # xs) =
     bind_s (f s x) (\<lambda>s p.
     bind_s (collect_s f s xs) (\<lambda>s ps. (s, Inr (p # ps))))"

subsection \<open>The operations on the store\<close>

definition magnitude_s :: "store \<Rightarrow> nat \<Rightarrow> store \<times> (error + real)" where
  "magnitude_s s v = (s, magnitude (vector_at s v))"

definition add_s :: "store \<Rightarrow> nat \<Rightarrow> nat \<Rightarrow> store \<times> (error + nat)" where
  "add_s s u v = bind_s (s, add (vector_at s u) (vector_at s v)) (\<lambda>s xs. new s (Numbers xs))"

definition sub_s :: "store \<Rightarrow> nat \<Rightarrow> nat \<Rightarrow> store \<times> (error + nat)" where
  "sub_s s u v = bind_s (s, sub (vector_at s u) (vector_at s v)) (\<lambda>s xs. new s (Numbers xs))"

definition dot_s :: "store \<Rightarrow> nat \<Rightarrow> nat \<Rightarrow> store \<times> (error + real)" where
  "dot_s s u v = (s, dot (vector_at s u) (vector_at s v))"

definition eldiv_s :: "store \<Rightarrow> nat \<Rightarrow> nat \<Rightarrow> store \<times> (error + nat)" where
  "eldiv_s s u v = bind_s (s, eldiv (vector_at s u) (vector_at s v)) (\<lambda>s xs. new s (Numbers xs))"

definition elmult_s :: "store \<Rightarrow> nat \<Rightarrow> nat \<Rightarrow> store \<times> (error + nat)" where
  "elmult_s s u v = bind_s (s, elmult (vector_at s u) (vector_at s v)) (\<lambda>s xs. new s (Numbers xs))"

definition normalize_s :: "store \<Rightarrow> nat \<Rightarrow> store \<times> (error + nat)" where
  "normalize_s s v =
     bind_s (magnitude_s s v) (\<lambda>s vmag.
     bind_s (s, collect (\<lambda>i. divide (item (vector_at s v) i) (Inr vmag))
                  [0..<length (vector_at s v)])
       (\<lambda>s xs. new s (Numbers xs)))"

definition cross_s :: "store \<Rightarrow> nat \<Rightarrow> nat \<Rightarrow> store \<times> (error + nat)" where
  "cross_s s u v = bind_s (s, cross (vector_at s u) (vector_at s v)) (\<lambda>s c. new s (Numbers c))"

definition mult_s :: "store \<Rightarrow> nat \<Rightarrow> real \<Rightarrow> store \<times> (error + nat)" where
  "mult_s s u c = bind_s (s, mult (vector_at s u) c) (\<lambda>s xs. new s (Numbers xs))"

definition div_s :: "store \<Rightarrow> nat \<Rightarrow> real \<Rightarrow> store \<times> (error + nat)" where
  "div_s s u c = bind_s (s, div_py (vector_at s u) c) (\<lambda>s xs. new s (Numbers xs))"

definition quaternion_to_rotation_matrix_s :: "store \<Rightarrow> nat \<Rightarrow> store \<times> (error + nat)" where
  "quaternion_to_rotation_matrix_s s quaternion =
     bind_s (magnitude_s s quaternion) (\<lambda>s mag_q.
     bind_s (div_s s quaternion mag_q) (\<lambda>s norm_q.
       (case vector_at s norm_q of
          [qw, qx, qy, qz] \<Rightarrow>
            new_matrix s
                [[qw * qw + qx * qx - qy * qy - qz * qz, 2 * qx * qy - 2 * qw * qz,
                  2 * qx * qz + 2 * qw * qy],
                 [2 * qx * qy + 2 * qw * qz, qw * qw - qx * qx + qy * qy - qz * qz,
                  2 * qy * qz - 2 * qw * qx],
                 [2 * qx * qz - 2 * qw * qy, 2 * qy * qz + 2 * qw * qx,
                  qw * qw - qx * qx - qy * qy + qz * qz]]
        | xs \<Rightarrow>
            (s, Inl (ValueError (if length xs < 4 then ''not enough values to unpack''
                                 else ''too many values to unpack''))))))"

definition matrix_constant_mult_s :: "store \<Rightarrow> nat \<Rightarrow> real \<Rightarrow> store \<times> (error + nat)" where
  "matrix_constant_mult_s s m c =
     bind_s (collect_s (\<lambda>s row_m. mult_s s row_m c) s (rows_at s m)) (\<lambda>s ps. new s (Rows ps))"

definition matrix_vector_mult_s :: "store \<Rightarrow> nat \<Rightarrow> nat \<Rightarrow> store \<times> (error + nat)" where
  "matrix_vector_mult_s s m v =
     bind_s (s, collect (\<lambda>row_m. dot (vector_at s row_m) (vector_at s v)) (rows_at s m))
       (\<lambda>s xs. new s (Numbers xs))"

fun vector_matrix_mult_loop_s ::
  "store \<Rightarrow> nat \<Rightarrow> nat \<Rightarrow> nat \<Rightarrow> nat list \<Rightarrow> nat \<Rightarrow> store \<times> (error + nat)" where
  "vector_matrix_mult_loop_s s v m rows [] result = (s, Inr result)"
| "vector_matrix_mult_loop_s s v m rows (c # cs) result =
     bind_s (s, sum_gen (\<lambda>r. lift2 (*) (item (vector_at s v) r) (item2 (matrix_at s m) r c))
                  [0..<rows]) (\<lambda>s x.
     bind_s (append_number s result x) (\<lambda>s _.
       vector_matrix_mult_loop_s s v m rows cs result))"

definition vector_matrix_mult_s :: "store \<Rightarrow> nat \<Rightarrow> nat \<Rightarrow> store \<times> (error + nat)" where
  "vector_matrix_mult_s s v m =
     (let rows = length (rows_at s m) in
      if length (vector_at s v) \<noteq> rows then (s, Inl mismatched_rows)
      else bind_s (s, item (matrix_at s m) 0) (\<lambda>s m0.
        let columns = length m0 in
        bind_s (new s (Numbers [])) (\<lambda>s result.
          vector_matrix_mult_loop_s s v m rows [0..<columns] result)))"

definition matrix_mult_s :: "store \<Rightarrow> nat \<Rightarrow> nat \<Rightarrow> store \<times> (error + nat)" where
  "matrix_mult_s s a b =
     bind_s (collect_s (\<lambda>s row_a. vector_matrix_mult_s s row_a b) s (rows_at s a))
       (\<lambda>s ps. new s (Rows ps))"

text \<open>\<^verbatim>\<open>list(map(list, zip(*a)))\<close>: one new list for every tuple, and the list of them.\<close>

definition transpose_s :: "store \<Rightarrow> nat \<Rightarrow> store \<times> (error + nat)" where
  "transpose_s s a = new_matrix s (zip_star (matrix_at s a))"

definition euler_to_rotation_matrix_s :: "store \<Rightarrow> nat \<Rightarrow> store \<times> (error + nat)" where
  "euler_to_rotation_matrix_s s euler_angles =
     bind_s (s, euler_to_rotation_matrix (vector_at s euler_angles)) (\<lambda>s mat3x3.
       new_matrix s mat3x3)"

definition rotation_matrix_to_euler_s :: "store \<Rightarrow> nat \<Rightarrow> store \<times> (error + nat)" where
  "rotation_matrix_to_euler_s s matrix =
     bind_s (new s (Numbers [0, 0, 0])) (\<lambda>s euler_angles.
     bind_s (s, item2 (matrix_at s matrix) 0 0) (\<lambda>s m00.
     if fabs m00 > MATRIX_TO_EULER_TOLERANCE then
       bind_s (s, lift2 atan2 (item2 (matrix_at s matrix) 1 0) (item2 (matrix_at s matrix) 0 0))
         (\<lambda>s a0.
       bind_s (set_number s euler_angles 0 a0) (\<lambda>s _.
       bind_s (s, lift2 atan2 (item2 (matrix_at s matrix) 2 1) (item2 (matrix_at s matrix) 2 2))
         (\<lambda>s a2.
       bind_s (set_number s euler_angles 2 a2) (\<lambda>s _.
       bind_s (s, lift2 atan2 (lift1 uminus (item2 (matrix_at s matrix) 2 0))
                    (divide (item2 (matrix_at s matrix) 0 0)
                       (lift1 cos (item (vector_at s euler_angles) 0))))
         (\<lambda>s a1.
       bind_s (set_number s euler_angles 1 a1) (\<lambda>s _.
         (s, Inr euler_angles)))))))
     else
       bind_s (s, item2 (matrix_at s matrix) 0 1) (\<lambda>s m01.
       if fabs m01 > MATRIX_TO_EULER_TOLERANCE then
         bind_s (s, lift2 atan2 (item2 (matrix_at s matrix) 1 0) (item2 (matrix_at s matrix) 0 0))
           (\<lambda>s a0.
         bind_s (set_number s euler_angles 0 a0) (\<lambda>s _.
         bind_s (s, lift2 atan2 (item2 (matrix_at s matrix) 2 1) (item2 (matrix_at s matrix) 2 2))
           (\<lambda>s a2.
         bind_s (set_number s euler_angles 2 a2) (\<lambda>s _.
         bind_s (s, lift2 atan2 (lift1 uminus (item2 (matrix_at s matrix) 2 0))
                      (divide (item2 (matrix_at s matrix) 1 0)
                         (lift1 sin (item (vector_at s euler_angles) 0))))
           (\<lambda>s a1.
         bind_s (set_number s euler_angles 1 a1) (\<lambda>s _.
           (s, Inr euler_angles)))))))
       else
         bind_s (s, lift2 atan2 (lift1 uminus (item2 (matrix_at s matrix) 2 0)) (Inr 0))
           (\<lambda>s a1.
         bind_s (set_number s euler_angles 1 a1) (\<lambda>s _.
         bind_s (set_number s euler_angles 0 0) (\<lambda>s _.
         bind_s (s, lift2 atan2 (lift1 uminus (item2 (matrix_at s matrix) 1 2))
                      (lift2 (*) (lift1 uminus (item2 (matrix_at s matrix) 0 2))
                         (item2 (matrix_at s matrix) 2 0)))
           (\<lambda>s a2.
         bind_s (set_number s euler_angles 2 a2) (\<lambda>s _.
           (s, Inr euler_angles)))))))))"

definition axis_angle_to_quaternion_s :: "store \<Rightarrow> nat \<Rightarrow> real \<Rightarrow> store \<times> (error + nat)" where
  "axis_angle_to_quaternion_s s axis angle =
     bind_s (s, axis_angle_to_quaternion (vector_at s axis) angle) (\<lambda>s q. new s (Numbers q))"

definition axis_angle_to_rotation_matrix_s :: "store \<Rightarrow> nat \<Rightarrow> real \<Rightarrow> store \<times> (error + nat)" where
  "axis_angle_to_rotation_matrix_s s axis angle =
     bind_s (axis_angle_to_quaternion_s s axis angle) (\<lambda>s q.
       quaternion_to_rotation_matrix_s s q)"

fun reshape_row_s :: "store \<Rightarrow> nat \<Rightarrow> nat \<Rightarrow> nat \<Rightarrow> nat \<Rightarrow> store \<times> (error + nat)" where
  "reshape_row_s s a 0 index row = (s, Inr index)"
| "reshape_row_s s a (Suc k) index row =
     bind_s (s, item (vector_at s a) index) (\<lambda>s x.
     bind_s (append_number s row x) (\<lambda>s _.
       reshape_row_s s a k (index + 1) row))"

fun reshape_rows_s :: "store \<Rightarrow> nat \<Rightarrow> nat \<Rightarrow> nat \<Rightarrow> nat \<Rightarrow> nat \<Rightarrow> store \<times> (error + nat)" where
  "reshape_rows_s s a 0 cols index b = (s, Inr b)"
| "reshape_rows_s s a (Suc k) cols index b =
     bind_s (new s (Numbers [])) (\<lambda>s row.
     bind_s (reshape_row_s s a cols index row) (\<lambda>s index'.
     bind_s (append_row s b row) (\<lambda>s _.
       reshape_rows_s s a k cols index' b)))"

definition reshape_tuple_s :: "store \<Rightarrow> nat \<Rightarrow> int \<times> int \<Rightarrow> store \<times> (error + nat)" where
  "reshape_tuple_s s a new_shape =
     bind_s (new s (Rows [])) (\<lambda>s b.
       reshape_rows_s s a (nat (fst new_shape)) (nat (snd new_shape)) 0 b)"

definition reshape_int_s :: "store \<Rightarrow> nat \<Rightarrow> int \<Rightarrow> store \<times> (error + nat)" where
  "reshape_int_s s a new_shape =
     bind_s (new s (Numbers [])) (\<lambda>s b.
     bind_s (new s (Numbers (concat (matrix_at s a)))) (\<lambda>s flat_list.
       if 0 \<le> new_shape \<and> new_shape < int (length (vector_at s flat_list))
       then new s (Numbers (take (nat new_shape) (vector_at s flat_list)))
       else (s, Inr flat_list)))"

text \<open>A call of the library on the store: the arguments are addresses.\<close>

definition returns_float :: "store \<times> (error + real) \<Rightarrow> store \<times> (error + outcome)" where
  "returns_float r = bind_s r (\<lambda>s x. (s, Inr (Float x)))"

definition returns_list :: "store \<times> (error + nat) \<Rightarrow> store \<times> (error + outcome)" where
  "returns_list r = bind_s r (\<lambda>s p. (s, Inr (Ref p)))"

fun run_s :: "store \<Rightarrow> (nat, nat) call \<Rightarrow> store \<times> (error + outcome)" where
  "run_s s (Magnitude v) = returns_float (magnitude_s s v)"
| "run_s s (Add u v) = returns_list (add_s s u v)"
| "run_s s (Sub u v) = returns_list (sub_s s u v)"
| "run_s s (Dot u v) = returns_float (dot_s s u v)"
| "run_s s (Eldiv u v) = returns_list (eldiv_s s u v)"
| "run_s s (Elmult u v) = returns_list (elmult_s s u v)"
| "run_s s (Normalize v) = returns_list (normalize_s s v)"
| "run_s s (Cross u v) = returns_list (cross_s s u v)"
| "run_s s (Mult u c) = returns_list (mult_s s u c)"
| "run_s s (Div u c) = returns_list (div_s s u c)"
| "run_s s (QuaternionToRotationMatrix q) = returns_list (quaternion_to_rotation_matrix_s s q)"
| "run_s s (MatrixConstantMult m c) = returns_list (matrix_constant_mult_s s m c)"
| "run_s s (MatrixVectorMult m v) = returns_list (matrix_vector_mult_s s m v)"
| "run_s s (VectorMatrixMult v m) = returns_list (vector_matrix_mult_s s v m)"
| "run_s s (MatrixMult a b) = returns_list (matrix_mult_s s a b)"
| "run_s s (Transpose a) = returns_list (transpose_s s a)"
| "run_s s (EulerToRotationMatrix e) = returns_list (euler_to_rotation_matrix_s s e)"
| "run_s s (RotationMatrixToEuler m) = returns_list (rotation_matrix_to_euler_s s m)"
| "run_s s (AxisAngleToQuaternion axis angle) =
     returns_list (axis_angle_to_quaternion_s s axis angle)"
| "run_s s (AxisAngleToRotationMatrix axis angle) =
     returns_list (axis_angle_to_rotation_matrix_s s axis angle)"
| "run_s s (ReshapeTuple a new_shape) = returns_list (reshape_tuple_s s a new_shape)"
| "run_s s (ReshapeInt a new_shape) = returns_list (reshape_int_s s a new_shape)"

text \<open>
  \<open>unchanged s s'\<close>: every object of the store \<open>s\<close> is in \<open>s'\<close> at its address, with its
  elements. \<open>fresh s s' p\<close>: the list at \<open>p\<close> in \<open>s'\<close>, and each of its rows when it is a
  list of rows, is an object that \<open>s\<close> does not have.
\<close>

definition unchanged :: "store \<Rightarrow> store \<Rightarrow> bool" where
  "unchanged s s' = (length s \<le> length s' \<and> take (length s) s' = s)"

definition fresh :: "store \<Rightarrow> store \<Rightarrow> nat \<Rightarrow> bool" where
  "fresh s s' p =
     (length s \<le> p \<and> p < length s'
      \<and> list_all (\<lambda>q. length s \<le> q \<and> q < length s') (rows_at s' p))"

text \<open>
  What the proofs carry along. \<open>allocates s res\<close>: the result \<open>res\<close> of a computation
  started in \<open>s\<close> leaves \<open>s\<close> unchanged and returns, if anything, a fresh list.
  \<open>local_list s0 p s\<close> and \<open>local_rows s0 p s\<close>: in the store \<open>s\<close> reached from \<open>s0\<close> the
  address \<open>p\<close> holds a list of numbers (of rows) that \<open>s0\<close> does not have.
\<close>

definition allocates :: "store \<Rightarrow> store \<times> (error + nat) \<Rightarrow> bool" where
  "allocates s res =
     (unchanged s (fst res) \<and> (case snd res of Inl _ \<Rightarrow> True | Inr p \<Rightarrow> fresh s (fst res) p))"

definition local_list :: "store \<Rightarrow> nat \<Rightarrow> store \<Rightarrow> bool" where
  "local_list s0 p s =
     (unchanged s0 s \<and> length s0 \<le> p \<and> p < length s \<and> (\<exists>xs. s ! p = Numbers xs))"

text \<open>The result of a computation that works on one local list and returns it.\<close>

definition returns_local :: "store \<Rightarrow> nat \<Rightarrow> store \<times> (error + nat) \<Rightarrow> bool" where
  "returns_local s0 p res = (local_list s0 p (fst res) \<and> (\<forall>q. snd res = Inr q \<longrightarrow> q = p))"

definition local_rows :: "store \<Rightarrow> nat \<Rightarrow> store \<Rightarrow> bool" where
  "local_rows s0 b s =
     (unchanged s0 s \<and> length s0 \<le> b \<and> b < length s
      \<and> list_all (\<lambda>q. length s0 \<le> q \<and> q < length s) (rows_at s b)
      \<and> (\<exists>rs. s ! b = Rows rs))"

subsection \<open>Reading the store\<close>

text \<open>
  An address is a vector of the store when it holds a list of numbers, a matrix when it
  holds a list of addresses of vectors; \<open>value_of\<close> reads what a call has returned, and a
  call is well formed in a store when its arguments are vectors and matrices of it.
  \<open>vector_result\<close> and \<open>matrix_result\<close> relate the result of an operation on the store to
  the result of the function on values.
\<close>

definition is_vector :: "store \<Rightarrow> nat \<Rightarrow> bool" where
  "is_vector s a = (a < length s \<and> (case s ! a of Numbers _ \<Rightarrow> True | Rows _ \<Rightarrow> False))"

definition is_matrix :: "store \<Rightarrow> nat \<Rightarrow> bool" where
  "is_matrix s a =
     (a < length s \<and> (case s ! a of Rows rs \<Rightarrow> list_all (is_vector s) rs | Numbers _ \<Rightarrow> False))"

fun value_of :: "store \<Rightarrow> outcome \<Rightarrow> result" where
  "value_of s (Float x) = Number x"
| "value_of s (Ref p) =
     (case s ! p of Numbers xs \<Rightarrow> Vector xs | Rows rs \<Rightarrow> Matrix (map (vector_at s) rs))"

definition vector_result :: "store \<times> (error + nat) \<Rightarrow> error + real list \<Rightarrow> bool" where
  "vector_result res r =
     (case r of
        Inl e \<Rightarrow> snd res = Inl e
      | Inr xs \<Rightarrow> (case snd res of Inl _ \<Rightarrow> False
                   | Inr p \<Rightarrow> p < length (fst res) \<and> fst res ! p = Numbers xs))"

definition matrix_result :: "store \<times> (error + nat) \<Rightarrow> error + real list list \<Rightarrow> bool" where
  "matrix_result res r =
     (case r of
        Inl e \<Rightarrow> snd res = Inl e
      | Inr rows \<Rightarrow> (case snd res of Inl _ \<Rightarrow> False
                   | Inr p \<Rightarrow> p < length (fst res) \<and> is_matrix (fst res) p
                              \<and> matrix_at (fst res) p = rows))"

text \<open>The store while \<open>reshape\<close> runs: the list of rows at the address \<open>length s0\<close>,
  followed by the rows made so far.\<close>

definition reshaping :: "store \<Rightarrow> real list list \<Rightarrow> store" where
  "reshaping s0 rows_done =
     s0 @ [Rows [Suc (length s0)..<Suc (length s0) + length rows_done]] @ map Numbers rows_done"

definition well_formed :: "store \<Rightarrow> (nat, nat) call \<Rightarrow> bool" where
  "well_formed s c = pred_call (is_vector s) (is_matrix s) c"

section \<open>Basic facts about the exception plumbing\<close>

lemma bind_Inl: "bind (Inl e) f = Inl e"
  by (simp add: bind_def)

lemma bind_Inr: "bind (Inr x) f = f x"
  by (simp add: bind_def)

lemma lift1_Inr: "lift1 f (Inr a) = Inr (f a)"
  by (simp add: lift1_def bind_Inr)

lemma lift2_Inr: "lift2 f (Inr a) (Inr b) = Inr (f a b)"
  by (simp add: lift2_def bind_Inr)

lemma item_in_range: "i < length xs \<Longrightarrow> item xs i = Inr (xs ! i)"
  by (simp add: item_def)

lemma item_out_of_range: "length xs \<le> i \<Longrightarrow> item xs i = Inl IndexError"
  by (simp add: item_def)

text \<open>A comprehension whose body never raises is a \<open>map\<close>.\<close>

lemma collect_total:
  "(\<And>x. x \<in> set xs \<Longrightarrow> f x = Inr (g x)) \<Longrightarrow> collect f xs = Inr (map g xs)"
  by (induction xs) simp_all

lemma collect_cong:
  "(\<And>x. x \<in> set xs \<Longrightarrow> f x = g x) \<Longrightarrow> collect f xs = collect g xs"
proof (induction xs)
  case Nil
  show ?case by simp
next
  case (Cons x xs)
  have "f x = g x"
    using Cons.prems by simp
  moreover have "collect f xs = collect g xs"
    using Cons.prems by (intro Cons.IH) simp
  ultimately show ?case by (simp split: sum.splits)
qed

text \<open>The first element whose body raises decides the exception of the comprehension.\<close>

lemma collect_first_error:
  assumes "k < length xs" and "f (xs ! k) = Inl e"
    and "\<And>j. j < k \<Longrightarrow> \<exists>y. f (xs ! j) = Inr y"
  shows "collect f xs = Inl e"
  using assms
proof (induction xs arbitrary: k)
  case Nil
  then show ?case by simp
next
  case (Cons x xs)
  show ?case
  proof (cases k)
    case 0
    with Cons.prems show ?thesis by simp
  next
    case (Suc k')
    from Cons.prems(3)[of 0] Suc obtain y where y: "f x = Inr y" by auto
    have "collect f xs = Inl e"
    proof (rule Cons.IH[of k'])
      show "k' < length xs" using Cons.prems(1) Suc by simp
      show "f (xs ! k') = Inl e" using Cons.prems(2) Suc by simp
      show "\<exists>y. f (xs ! j) = Inr y" if "j < k'" for j
        using Cons.prems(3)[of "Suc j"] that Suc by simp
    qed
    with y show ?thesis by simp
  qed
qed

text \<open>A comprehension raises only what its body raises.\<close>

lemma collect_only_errors:
  "(\<And>x. x \<in> set xs \<Longrightarrow> f x \<noteq> Inl e) \<Longrightarrow> collect f xs \<noteq> Inl e"
  by (induction xs) (auto split: sum.splits)

section \<open>The paired elementwise operations\<close>

lemma add_total:
  assumes "length u \<le> length v"
  shows "add u v = Inr (map (\<lambda>i. u ! i + v ! i) [0..<length u])"
  unfolding add_def using assms
  by (intro collect_total) (simp add: item_in_range lift2_Inr)

lemma sub_total:
  assumes "length u \<le> length v"
  shows "sub u v = Inr (map (\<lambda>i. u ! i - v ! i) [0..<length u])"
  unfolding sub_def using assms
  by (intro collect_total) (simp add: item_in_range lift2_Inr)

lemma elmult_total:
  assumes "length u \<le> length v"
  shows "elmult u v = Inr (map (\<lambda>i. u ! i * v ! i) [0..<length u])"
  unfolding elmult_def using assms
  by (intro collect_total) (simp add: item_in_range lift2_Inr)

lemma eldiv_total:
  assumes "length u \<le> length v" and "\<And>i. i < length u \<Longrightarrow> v ! i \<noteq> 0"
  shows "eldiv u v = Inr (map (\<lambda>i. u ! i / v ! i) [0..<length u])"
  unfolding eldiv_def using assms
  by (intro collect_total) (simp add: item_in_range divide_def bind_Inr py_div_def)

lemma dot_total:
  assumes "length u \<le> length v"
  shows "dot u v = Inr (\<Sum>i<length u. u ! i * v ! i)"
proof -
  have "collect (\<lambda>i. lift2 (*) (item u i) (item v i)) [0..<length u]
        = Inr (map (\<lambda>i. u ! i * v ! i) [0..<length u])"
    using assms by (intro collect_total) (simp add: item_in_range lift2_Inr)
  then show ?thesis
    by (simp add: dot_def sum_gen_def bind_Inr sum_list_sum_nth atLeast0LessThan)
qed

text \<open>Elements of the second argument beyond the length of the first are never read.\<close>

lemma item_append_left: "i < length v \<Longrightarrow> item (v @ w) i = item v i"
  by (simp add: item_def nth_append)

lemma eldiv_ignores_tail:
  assumes "length u \<le> length v"
  shows "eldiv u (v @ w) = eldiv u v"
  unfolding eldiv_def using assms
  by (intro collect_cong) (simp add: item_append_left)

text \<open>
  Claim C10, as amended. The paired operations \<open>add\<close>, \<open>sub\<close>, \<open>dot\<close>, \<open>elmult\<close> and
  \<open>eldiv\<close> iterate over the indices of the first argument \<open>u\<close> only. Whenever \<open>v\<close> is at
  least as long as \<open>u\<close>: \<open>add\<close>, \<open>sub\<close> and \<open>elmult\<close> return without exception a list
  of length \<open>length u\<close>, \<open>dot\<close> returns the sum of the first \<open>length u\<close> products, and
  \<open>eldiv\<close> returns the \<open>length u\<close> quotients provided none of the first \<open>length u\<close>
  elements of \<open>v\<close> is zero; trailing elements of \<open>v\<close> change nothing.
\<close>

theorem paired_ops_iterate_over_first:
  assumes "length u \<le> length v"
  shows "add u v = Inr (map (\<lambda>i. u ! i + v ! i) [0..<length u])
       \<and> sub u v = Inr (map (\<lambda>i. u ! i - v ! i) [0..<length u])
       \<and> elmult u v = Inr (map (\<lambda>i. u ! i * v ! i) [0..<length u])
       \<and> dot u v = Inr (\<Sum>i<length u. u ! i * v ! i)
       \<and> ((\<forall>i<length u. v ! i \<noteq> 0) \<longrightarrow>
            eldiv u v = Inr (map (\<lambda>i. u ! i / v ! i) [0..<length u]))
       \<and> add u (v @ w) = add u v \<and> sub u (v @ w) = sub u v
       \<and> elmult u (v @ w) = elmult u v \<and> dot u (v @ w) = dot u v
       \<and> eldiv u (v @ w) = eldiv u v"
proof -
  have le: "length u \<le> length (v @ w)"
    using assms by simp
  have nth: "\<And>i. i < length u \<Longrightarrow> (v @ w) ! i = v ! i"
    using assms by (simp add: nth_append)
  have "add u (v @ w) = add u v"
    using nth by (simp add: add_total[OF le] add_total[OF assms])
  moreover have "sub u (v @ w) = sub u v"
    using nth by (simp add: sub_total[OF le] sub_total[OF assms])
  moreover have "elmult u (v @ w) = elmult u v"
    using nth by (simp add: elmult_total[OF le] elmult_total[OF assms])
  moreover have "dot u (v @ w) = dot u v"
    using nth by (simp add: dot_total[OF le] dot_total[OF assms])
  ultimately show ?thesis
    using assms
    by (simp add: add_total sub_total elmult_total dot_total eldiv_total eldiv_ignores_tail)
qed

theorem paired_ops_iterate_over_first_witness:
  "length [1, 2 :: real] \<le> length [4, 5, 6 :: real]
   \<and> add [1, 2] [4, 5, 6] = Inr [5, 7]
   \<and> sub [1, 2] [4, 5, 6] = Inr [- 3, - 3]
   \<and> elmult [1, 2] [4, 5, 6] = Inr [4, 10]
   \<and> dot [1, 2] [4, 5, 6] = Inr 14
   \<and> eldiv [1, 2] [4, 5, 6] = Inr [1 / 4, 2 / 5]
   \<and> add [1, 2] ([4, 5, 6] @ [7]) = add [1, 2] [4, 5, 6]"
proof -
  have nz: "\<forall>i<length [1, 2 :: real]. [4, 5, 6 :: real] ! i \<noteq> 0"
    by (simp add: less_Suc_eq)
  have le: "length [1, 2 :: real] \<le> length [4, 5, 6 :: real]"
    by simp
  have up: "[0..<length [1, 2 :: real]] = [0, 1]"
    by (simp add: upt_rec)
  show ?thesis
    using paired_ops_iterate_over_first[OF le, of "[7]"] nz
    unfolding up by (simp add: lessThan_Suc)
qed

text \<open>
  Claim C10 as written fails for \<open>eldiv\<close>: the second argument is long enough, and the
  call still ends in an exception.
\<close>

theorem eldiv_long_enough_still_raises:
  "length [1 :: real] \<le> length [0 :: real] \<and> eldiv [1] [0] = Inl ZeroDivisionError"
  by (simp add: eldiv_def item_def divide_def bind_def py_div_def)

section \<open>Magnitude, scaling and the quaternion conversions\<close>

lemma map_index_eq: "map (\<lambda>i. f (xs ! i)) [0..<length xs] = map f xs"
  by (rule nth_equalityI) simp_all

lemma sum_gen_squares:
  "sum_gen (\<lambda>i. lift2 (*) (item v i) (item v i)) [0..<length v] = Inr (\<Sum>x\<leftarrow>v. x * x)"
proof -
  have "collect (\<lambda>i. lift2 (*) (item v i) (item v i)) [0..<length v]
        = Inr (map (\<lambda>i. v ! i * v ! i) [0..<length v])"
    by (intro collect_total) (simp add: item_in_range lift2_Inr)
  then show ?thesis
    by (simp add: sum_gen_def bind_Inr map_index_eq[of "\<lambda>x. x * x"])
qed

text \<open>The square root never sees a negative number: \<open>magnitude\<close> always returns.\<close>

lemma magnitude_eq: "magnitude v = Inr (sqrt (\<Sum>x\<leftarrow>v. x * x))"
proof -
  have "0 \<le> (\<Sum>x\<leftarrow>v. x * x)"
    by (intro sum_list_nonneg) auto
  then show ?thesis
    by (simp add: magnitude_def sum_gen_squares bind_Inr py_sqrt_def)
qed

lemma div_py_eq:
  assumes "c \<noteq> 0"
  shows "div_py u c = Inr (map (\<lambda>x. x / c) u)"
proof -
  have "div_py u c = Inr (map (\<lambda>i. u ! i / c) [0..<length u])"
    unfolding div_py_def using assms
    by (intro collect_total) (simp add: item_in_range divide_def bind_Inr py_div_def)
  then show ?thesis
    by (simp add: map_index_eq[of "\<lambda>x. x / c"])
qed

lemma axis_angle_to_quaternion_eq:
  "axis_angle_to_quaternion [x, y, z] angle =
     Inr [cos (angle / 2), x * sin (angle / 2), y * sin (angle / 2), z * sin (angle / 2)]"
  by (simp add: axis_angle_to_quaternion_def Let_def item_def lift2_Inr bind_Inr)

text \<open>
  Claim C5. For every 3-vector \<open>[x, y, z]\<close> and every angle,
  \<open>axis_angle_to_quaternion\<close> returns the four-element list of \<open>cos (angle / 2)\<close> and the
  three components of the axis, each multiplied by \<open>sin (angle / 2)\<close>; the axis is used
  as it is given, not normalised. For the axis \<open>[0, 0, 1]\<close> and the angle \<open>\<pi> / 2\<close> the
  result is \<open>[cos (\<pi> / 4), 0, 0, sin (\<pi> / 4)]\<close>.
\<close>

theorem axis_angle_to_quaternion_components:
  "axis_angle_to_quaternion [x, y, z] angle =
     Inr [cos (angle / 2), x * sin (angle / 2), y * sin (angle / 2), z * sin (angle / 2)]
   \<and> axis_angle_to_quaternion [0, 0, 1] (pi / 2) = Inr [cos (pi / 4), 0, 0, sin (pi / 4)]"
  by (simp add: axis_angle_to_quaternion_eq)

text \<open>A quaternion of norm one is its own normalisation, and the conversion returns.\<close>

lemma quaternion_unit:
  assumes "qw * qw + qx * qx + qy * qy + qz * qz = 1"
  shows "quaternion_to_rotation_matrix [qw, qx, qy, qz] =
     Inr [[qw * qw + qx * qx - qy * qy - qz * qz, 2 * qx * qy - 2 * qw * qz,
           2 * qx * qz + 2 * qw * qy],
          [2 * qx * qy + 2 * qw * qz, qw * qw - qx * qx + qy * qy - qz * qz,
           2 * qy * qz - 2 * qw * qx],
          [2 * qx * qz - 2 * qw * qy, 2 * qy * qz + 2 * qw * qx,
           qw * qw - qx * qx - qy * qy + qz * qz]]"
proof -
  have "magnitude [qw, qx, qy, qz] = Inr 1"
    using assms by (simp add: magnitude_eq add.assoc)
  then show ?thesis
    by (simp add: quaternion_to_rotation_matrix_def bind_Inr div_py_eq)
qed

lemma unit_axis_quaternion:
  assumes "x * x + y * y + z * z = (1::real)"
  shows "cos a * cos a + x * sin a * (x * sin a) + y * sin a * (y * sin a)
         + z * sin a * (z * sin a) = 1"
proof -
  have "cos a * cos a + x * sin a * (x * sin a) + y * sin a * (y * sin a)
         + z * sin a * (z * sin a) = cos a * cos a + (x * x + y * y + z * z) * (sin a * sin a)"
    by (simp add: algebra_simps)
  also have "\<dots> = (cos a)\<^sup>2 + (sin a)\<^sup>2"
    by (simp add: assms power2_eq_square)
  finally show ?thesis by simp
qed

text \<open>
  Claim C4. \<open>axis_angle_to_rotation_matrix\<close> is the composition of
  \<open>axis_angle_to_quaternion\<close> and \<open>quaternion_to_rotation_matrix\<close>, for every axis and
  angle (exceptions included). For a unit 3-vector \<open>[x, y, z]\<close> both computation paths
  return, and they return the same matrix of three rows of three elements.
\<close>

theorem axis_angle_to_rotation_matrix_composes:
  "axis_angle_to_rotation_matrix axis angle = compose_conversions axis angle
   \<and> (x * x + y * y + z * z = 1 \<longrightarrow>
        (\<exists>m. axis_angle_to_rotation_matrix [x, y, z] angle = Inr m
           \<and> quaternion_to_rotation_matrix
                [cos (angle / 2), x * sin (angle / 2), y * sin (angle / 2), z * sin (angle / 2)]
              = Inr m
           \<and> length m = 3 \<and> (\<forall>row \<in> set m. length row = 3)))"
proof -
  have "axis_angle_to_rotation_matrix axis angle = compose_conversions axis angle"
    by (simp add: axis_angle_to_rotation_matrix_def compose_conversions_def bind_def)
  moreover have "axis_angle_to_rotation_matrix [x, y, z] angle
      = quaternion_to_rotation_matrix
          [cos (angle / 2), x * sin (angle / 2), y * sin (angle / 2), z * sin (angle / 2)]"
    by (simp add: axis_angle_to_rotation_matrix_def axis_angle_to_quaternion_eq bind_Inr)
  ultimately show ?thesis
    using quaternion_unit[OF unit_axis_quaternion, of x y z "angle / 2"]
    by simp
qed

theorem axis_angle_to_rotation_matrix_composes_witness:
  "(0::real) * 0 + 0 * 0 + 1 * 1 = 1
   \<and> axis_angle_to_rotation_matrix [0, 0, 1] pi = compose_conversions [0, 0, 1] pi
   \<and> (\<exists>m. axis_angle_to_rotation_matrix [0, 0, 1] pi = Inr m
         \<and> quaternion_to_rotation_matrix [0, 0, 0, 1] = Inr m
         \<and> length m = 3 \<and> (\<forall>row \<in> set m. length row = 3))"
proof -
  note composes = axis_angle_to_rotation_matrix_composes[of "[0, 0, 1]" pi 0 0 1]
  have unit: "(0::real) * 0 + 0 * 0 + 1 * 1 = 1"
    by simp
  have "\<exists>m. axis_angle_to_rotation_matrix [0, 0, 1] pi = Inr m
         \<and> quaternion_to_rotation_matrix [0, 0, 0, 1] = Inr m
         \<and> length m = 3 \<and> (\<forall>row \<in> set m. length row = 3)"
    using conjunct2[OF composes] unit by simp
  with conjunct1[OF composes] unit show ?thesis
    by blast
qed

section \<open>Reshape\<close>

lemma reshape_row_eq:
  "index \<le> length a \<Longrightarrow>
   reshape_row a k index row =
     (if index + k \<le> length a then Inr (row @ take k (drop index a), index + k)
      else Inl IndexError)"
proof (induction k arbitrary: index row)
  case 0
  then show ?case by simp
next
  case (Suc k)
  show ?case
  proof (cases "index < length a")
    case True
    then have "take (Suc k) (drop index a) = a ! index # take k (drop (Suc index) a)"
      by (simp add: Cons_nth_drop_Suc[symmetric])
    moreover have "reshape_row a k (index + 1) (row @ [a ! index]) =
      (if index + 1 + k \<le> length a
       then Inr ((row @ [a ! index]) @ take k (drop (index + 1) a), index + 1 + k)
       else Inl IndexError)"
      using True by (intro Suc.IH) simp
    ultimately show ?thesis
      using True by (simp add: item_def bind_Inr)
  next
    case False
    then show ?thesis
      by (simp add: item_def bind_Inl)
  qed
qed

lemma reshape_rows_eq:
  "index \<le> length a \<Longrightarrow>
   reshape_rows a k cols index b =
     (if index + k * cols \<le> length a
      then Inr (b @ map (\<lambda>x. take cols (drop (index + x * cols) a)) [0..<k])
      else Inl IndexError)"
proof (induction k arbitrary: index b)
  case 0
  then show ?case by simp
next
  case (Suc k)
  show ?case
  proof (cases "index + cols \<le> length a")
    case True
    have "reshape_rows a (Suc k) cols index b
          = reshape_rows a k cols (index + cols) (b @ [take cols (drop index a)])"
      using True Suc.prems by (simp add: reshape_row_eq bind_Inr)
    also have "\<dots> = (if index + cols + k * cols \<le> length a
      then Inr ((b @ [take cols (drop index a)])
                @ map (\<lambda>x. take cols (drop (index + cols + x * cols) a)) [0..<k])
      else Inl IndexError)"
      using True by (rule Suc.IH)
    also have "\<dots> = (if index + Suc k * cols \<le> length a
      then Inr (b @ map (\<lambda>x. take cols (drop (index + x * cols) a)) [0..<Suc k])
      else Inl IndexError)"
      by (simp add: map_upt_Suc add.assoc del: upt_Suc)
    finally show ?thesis .
  next
    case False
    then have "\<not> index + Suc k * cols \<le> length a"
      by simp
    with False Suc.prems show ?thesis
      by (simp add: reshape_row_eq bind_Inl)
  qed
qed

lemma take_drop_nth:
  "i + c \<le> length a \<Longrightarrow> take c (drop i a) = map (\<lambda>y. a ! (i + y)) [0..<c]"
  by (rule nth_equalityI) simp_all

lemma reshape_tuple_eq:
  "reshape_tuple a (rows, cols) =
     (if nat rows * nat cols \<le> length a
      then Inr (map (\<lambda>x. map (\<lambda>y. a ! (x * nat cols + y)) [0..<nat cols]) [0..<nat rows])
      else Inl IndexError)"
proof (cases "nat rows * nat cols \<le> length a")
  case True
  have "map (\<lambda>x. take (nat cols) (drop (x * nat cols) a)) [0..<nat rows]
        = map (\<lambda>x. map (\<lambda>y. a ! (x * nat cols + y)) [0..<nat cols]) [0..<nat rows]"
  proof (rule map_cong[OF refl])
    fix x assume "x \<in> set [0..<nat rows]"
    then have "Suc x \<le> nat rows" by simp
    then have "Suc x * nat cols \<le> nat rows * nat cols"
      by (rule mult_le_mono1)
    with True have "x * nat cols + nat cols \<le> length a" by simp
    then show "take (nat cols) (drop (x * nat cols) a)
               = map (\<lambda>y. a ! (x * nat cols + y)) [0..<nat cols]"
      by (rule take_drop_nth)
  qed
  with True show ?thesis
    by (simp add: reshape_tuple_def reshape_rows_eq)
next
  case False
  then show ?thesis
    by (simp add: reshape_tuple_def reshape_rows_eq)
qed

text \<open>
  Claim C6. \<open>reshape\<close> has two modes. With a pair \<open>(rows, cols)\<close> it unflattens the
  flat sequence \<open>a\<close> into \<open>rows\<close> rows of \<open>cols\<close> elements, element \<open>y\<close> of row \<open>x\<close>
  being \<open>a[x * cols + y]\<close> (row-major order); this is the result whenever \<open>a\<close> holds the
  \<open>rows * cols\<close> elements that are read, and an IndexError otherwise. With an integer \<open>n\<close>
  it flattens the matrix row by row and returns the first \<open>n\<close> elements if
  \<open>0 \<le> n < length\<close>, and the whole flattened sequence otherwise. The two concrete cases
  of the specification hold.
\<close>

theorem reshape_two_modes:
  "reshape_tuple a (rows, cols) =
     (if nat rows * nat cols \<le> length a
      then Inr (map (\<lambda>x. map (\<lambda>y. a ! (x * nat cols + y)) [0..<nat cols]) [0..<nat rows])
      else Inl IndexError)
   \<and> reshape_int m n =
     (if 0 \<le> n \<and> n < int (length (concat m)) then take (nat n) (concat m) else concat m)
   \<and> reshape_tuple [1, 2, 3, 4, 5, 6 :: int] (2, 3) = Inr [[1, 2, 3], [4, 5, 6]]
   \<and> reshape_int [[1, 2], [3, 4 :: int]] 3 = [1, 2, 3]"
proof -
  have "reshape_tuple [1, 2, 3, 4, 5, 6 :: int] (2, 3) = Inr [[1, 2, 3], [4, 5, 6]]"
    by code_simp
  moreover have "reshape_int [[1, 2], [3, 4 :: int]] 3 = [1, 2, 3]"
    by code_simp
  ultimately show ?thesis
    by (simp add: reshape_tuple_eq reshape_int_def Let_def)
qed

section \<open>Transpose\<close>

lemma zip_star_rect:
  assumes "a \<noteq> []" and "\<forall>row \<in> set a. length row = c"
  shows "zip_star a = map (\<lambda>j. map (\<lambda>row. row ! j) a) [0..<c]"
  using assms
proof (induction c arbitrary: a)
  case 0
  then have "[] \<in> set a"
    by (cases a) auto
  then show ?case
    by (subst zip_star.simps) simp
next
  case (Suc c)
  then have nonempty: "[] \<notin> set a"
    by auto
  have tl_rows: "\<forall>row \<in> set (map tl a). length row = c"
    using Suc.prems by simp
  have "zip_star (map tl a) = map (\<lambda>j. map (\<lambda>row. row ! j) (map tl a)) [0..<c]"
    using Suc.prems(1) tl_rows by (intro Suc.IH) simp_all
  also have "\<dots> = map (\<lambda>j. map (\<lambda>row. row ! Suc j) a) [0..<c]"
    using Suc.prems(2) by (auto simp: nth_tl)
  finally have rest: "zip_star (map tl a) = map (\<lambda>j. map (\<lambda>row. row ! Suc j) a) [0..<c]" .
  have first: "map hd a = map (\<lambda>row. row ! 0) a"
  proof (rule map_cong[OF refl])
    fix row assume "row \<in> set a"
    with nonempty have "row \<noteq> []" by auto
    then show "hd row = row ! 0" by (rule hd_conv_nth)
  qed
  have "zip_star a = map hd a # zip_star (map tl a)"
    using Suc.prems(1) nonempty by (subst zip_star.simps) simp
  then show ?case
    by (simp add: rest first map_upt_Suc del: upt_Suc)
qed

lemma transpose_twice:
  assumes "\<forall>row \<in> set a. length row = c" and "a = [] \<or> 0 < c"
  shows "transpose_py (transpose_py a) = a"
proof (cases "a = []")
  case True
  then show ?thesis
    by (simp add: transpose_py_def zip_star.simps[of "[]"])
next
  case False
  with assms have c: "0 < c" by simp
  let ?t = "map (\<lambda>j. map (\<lambda>row. row ! j) a) [0..<c]"
  have t: "zip_star a = ?t"
    using False assms(1) by (rule zip_star_rect)
  have "?t \<noteq> []" using c by simp
  moreover have "\<forall>row \<in> set ?t. length row = length a" by simp
  ultimately have "zip_star ?t = map (\<lambda>i. map (\<lambda>row. row ! i) ?t) [0..<length a]"
    by (rule zip_star_rect)
  also have "\<dots> = a"
  proof (rule nth_equalityI)
    show "length (map (\<lambda>i. map (\<lambda>row. row ! i) ?t) [0..<length a]) = length a" by simp
  next
    fix i assume "i < length (map (\<lambda>i. map (\<lambda>row. row ! i) ?t) [0..<length a])"
    then have i: "i < length a" by simp
    then have len: "length (a ! i) = c" using assms(1) by simp
    have "map (\<lambda>row. row ! i) ?t = map (\<lambda>j. a ! i ! j) [0..<c]"
      using i by simp
    also have "\<dots> = a ! i"
      using len by (intro nth_equalityI) simp_all
    finally show "map (\<lambda>i. map (\<lambda>row. row ! i) ?t) [0..<length a] ! i = a ! i"
      using i by simp
  qed
  finally show ?thesis
    by (simp add: transpose_py_def t)
qed

text \<open>
  Claim C8, as amended. For every rectangular matrix \<open>a\<close> (all rows of one length \<open>c\<close>)
  with at least one row, \<open>transpose a\<close> has \<open>c\<close> rows, row \<open>j\<close> listing element \<open>j\<close> of
  every row of \<open>a\<close>: rows and columns are swapped. \<open>transpose (transpose a) = a\<close> holds
  for every rectangular matrix that has no row at all or at least one column.
\<close>

theorem transpose_swaps_rows_and_columns:
  assumes "\<forall>row \<in> set a. length row = c"
  shows "(a \<noteq> [] \<longrightarrow> transpose_py a = map (\<lambda>j. map (\<lambda>row. row ! j) a) [0..<c])
       \<and> (a = [] \<or> 0 < c \<longrightarrow> transpose_py (transpose_py a) = a)"
  using assms zip_star_rect[of a c] transpose_twice[of a c]
  by (simp add: transpose_py_def)

theorem transpose_swaps_rows_and_columns_witness:
  "map length [[1, 2, 3], [4, 5, 6 :: int]] = [3, 3]
   \<and> transpose_py [[1, 2, 3], [4, 5, 6 :: int]] = [[1, 4], [2, 5], [3, 6]]
   \<and> transpose_py (transpose_py [[1, 2, 3], [4, 5, 6 :: int]]) = [[1, 2, 3], [4, 5, 6]]"
proof -
  have rect: "\<forall>row \<in> set [[1, 2, 3], [4, 5, 6 :: int]]. length row = 3"
    by simp
  have up: "[0..<3] = [0, 1, 2]"
    by (simp add: upt_rec)
  note swaps = transpose_swaps_rows_and_columns[OF rect]
  have "transpose_py [[1, 2, 3], [4, 5, 6 :: int]] = [[1, 4], [2, 5], [3, 6]]"
    using conjunct1[OF swaps] by (simp add: up)
  moreover have "transpose_py (transpose_py [[1, 2, 3], [4, 5, 6 :: int]])
                 = [[1, 2, 3], [4, 5, 6]]"
    using conjunct2[OF swaps] by simp
  ultimately show ?thesis
    by simp
qed

text \<open>
  Claim C8 as written fails for a matrix of one row and no column: its transpose has no
  row, and the transpose of that is the empty matrix, not the matrix of one empty row.
\<close>

theorem transpose_twice_loses_empty_rows:
  "map length [[] :: int list] = [0]
   \<and> transpose_py [[] :: int list] = []
   \<and> transpose_py (transpose_py [[] :: int list]) \<noteq> [[]]"
  by (simp add: transpose_py_def zip_star.simps[of "[[]]"] zip_star.simps[of "[]"])

section \<open>Which exceptions the operations raise\<close>

text \<open>No operation but \<open>vector_matrix_mult\<close> ends in a ValueError of the module.\<close>

lemma bind_not:
  "r \<noteq> Inl e \<Longrightarrow> (\<And>x. r = Inr x \<Longrightarrow> f x \<noteq> Inl e) \<Longrightarrow> bind r f \<noteq> Inl e"
  by (cases r) (simp_all add: bind_def)

lemma lift1_not: "x \<noteq> Inl e \<Longrightarrow> lift1 f x \<noteq> Inl e"
  unfolding lift1_def by (rule bind_not) simp_all

lemma lift2_not: "x \<noteq> Inl e \<Longrightarrow> y \<noteq> Inl e \<Longrightarrow> lift2 f x y \<noteq> Inl e"
  unfolding lift2_def by (intro bind_not) simp_all

lemma item_not: "item xs i \<noteq> Inl (ValueError s)"
  by (simp add: item_def)

lemma item2_not: "item2 m i j \<noteq> Inl (ValueError s)"
  unfolding item2_def by (intro bind_not item_not)

lemma divide_not:
  "x \<noteq> Inl (ValueError s) \<Longrightarrow> y \<noteq> Inl (ValueError s) \<Longrightarrow> divide x y \<noteq> Inl (ValueError s)"
  unfolding divide_def by (intro bind_not) (simp_all add: py_div_def)

lemma sum_gen_not:
  "(\<And>x. x \<in> set xs \<Longrightarrow> f x \<noteq> Inl e) \<Longrightarrow> sum_gen f xs \<noteq> Inl e"
  unfolding sum_gen_def by (intro bind_not collect_only_errors) simp_all

lemmas no_value_error =
  bind_not lift1_not lift2_not item_not item2_not divide_not sum_gen_not collect_only_errors

lemma bind_Inl_iff: "bind r f = Inl e \<longleftrightarrow> r = Inl e \<or> (\<exists>x. r = Inr x \<and> f x = Inl e)"
  by (cases r) (simp_all add: bind_def)

lemma lift1_Inl_iff: "lift1 f x = Inl e \<longleftrightarrow> x = Inl e"
  by (cases x) (simp_all add: lift1_def bind_def)

lemma lift2_Inl_iff:
  "lift2 f x y = Inl e \<longleftrightarrow> x = Inl e \<or> ((\<exists>a. x = Inr a) \<and> y = Inl e)"
  by (cases x; cases y) (simp_all add: lift2_def bind_def)

lemmas error_simps = bind_Inl_iff lift1_Inl_iff lift2_Inl_iff item_not item2_not divide_not

lemma magnitude_not: "magnitude v \<noteq> Inl e"
  by (simp add: magnitude_eq)

lemma add_not: "add u v \<noteq> Inl (ValueError s)"
  unfolding add_def by (intro no_value_error)

lemma sub_not: "sub u v \<noteq> Inl (ValueError s)"
  unfolding sub_def by (intro no_value_error)

lemma dot_not: "dot u v \<noteq> Inl (ValueError s)"
  unfolding dot_def by (intro no_value_error)

lemma eldiv_not: "eldiv u v \<noteq> Inl (ValueError s)"
  unfolding eldiv_def by (intro no_value_error)

lemma elmult_not: "elmult u v \<noteq> Inl (ValueError s)"
  unfolding elmult_def by (intro no_value_error)

lemma normalize_not: "normalize_py v \<noteq> Inl (ValueError s)"
  unfolding normalize_py_def by (intro no_value_error magnitude_not) simp_all

lemma cross_not: "cross u v \<noteq> Inl (ValueError s)"
  unfolding cross_def by (intro no_value_error) simp_all

lemma mult_not: "mult u c \<noteq> Inl (ValueError s)"
  unfolding mult_def by (intro no_value_error) simp_all

lemma div_py_not: "div_py u c \<noteq> Inl (ValueError s)"
  unfolding div_py_def by (intro no_value_error) simp_all

lemma quaternion_not: "quaternion_to_rotation_matrix q \<noteq> Inl mismatched_rows"
  unfolding quaternion_to_rotation_matrix_def mismatched_rows_def
  by (intro bind_not magnitude_not div_py_not) (simp split: list.splits)

lemma matrix_constant_mult_not: "matrix_constant_mult m c \<noteq> Inl (ValueError s)"
  unfolding matrix_constant_mult_def by (intro collect_only_errors mult_not)

lemma matrix_vector_mult_not: "matrix_vector_mult m v \<noteq> Inl (ValueError s)"
  unfolding matrix_vector_mult_def by (intro collect_only_errors dot_not)

lemma euler_to_rotation_matrix_not: "euler_to_rotation_matrix e \<noteq> Inl (ValueError s)"
  unfolding euler_to_rotation_matrix_def Let_def by (intro no_value_error) simp_all

lemma rotation_matrix_to_euler_not: "rotation_matrix_to_euler m \<noteq> Inl (ValueError s)"
  unfolding rotation_matrix_to_euler_def Let_def
  by (simp add: error_simps)

lemma axis_angle_to_quaternion_not: "axis_angle_to_quaternion axis angle \<noteq> Inl (ValueError s)"
  unfolding axis_angle_to_quaternion_def Let_def by (intro no_value_error) simp_all

lemma axis_angle_to_rotation_matrix_not:
  "axis_angle_to_rotation_matrix axis angle \<noteq> Inl mismatched_rows"
  unfolding axis_angle_to_rotation_matrix_def
  by (intro bind_not quaternion_not) (simp add: axis_angle_to_quaternion_not mismatched_rows_def)

lemma reshape_row_not: "reshape_row a k index row \<noteq> Inl (ValueError s)"
  by (induction k arbitrary: index row) (simp_all add: error_simps)

lemma reshape_rows_not: "reshape_rows a k cols index b \<noteq> Inl (ValueError s)"
  by (induction k arbitrary: index b) (simp_all add: error_simps reshape_row_not)

lemma reshape_tuple_not: "reshape_tuple a new_shape \<noteq> Inl (ValueError s)"
  by (simp add: reshape_tuple_def reshape_rows_not)

lemma vector_matrix_mult_loop_not:
  "vector_matrix_mult_loop v m rows cs result \<noteq> Inl (ValueError s)"
  by (induction cs arbitrary: result) (simp_all add: error_simps sum_gen_not)

lemma vector_matrix_mult_mismatch:
  "vector_matrix_mult v m = Inl mismatched_rows \<longleftrightarrow> length v \<noteq> length m"
proof (cases "length v = length m")
  case True
  have "bind (item m 0) (\<lambda>m0. vector_matrix_mult_loop v m (length m) [0..<length m0] [])
        \<noteq> Inl mismatched_rows"
    unfolding mismatched_rows_def by (intro bind_not item_not vector_matrix_mult_loop_not)
  with True show ?thesis
    by (simp add: vector_matrix_mult_def Let_def)
next
  case False
  then show ?thesis
    by (simp add: vector_matrix_mult_def Let_def)
qed

lemma matrix_mult_mismatch:
  assumes "matrix_mult a b = Inl mismatched_rows"
  shows "\<exists>row_a \<in> set a. length row_a \<noteq> length b"
proof (rule ccontr)
  assume "\<not> (\<exists>row_a \<in> set a. length row_a \<noteq> length b)"
  then have "\<And>row_a. row_a \<in> set a \<Longrightarrow> vector_matrix_mult row_a b \<noteq> Inl mismatched_rows"
    by (simp add: vector_matrix_mult_mismatch)
  then have "matrix_mult a b \<noteq> Inl mismatched_rows"
    unfolding matrix_mult_def by (rule collect_only_errors)
  with assms show False by simp
qed

lemma run_mismatch:
  assumes "run c = Inl mismatched_rows"
  shows "(\<exists>v m. c = VectorMatrixMult v m \<and> length v \<noteq> length m)
       \<or> (\<exists>a b. c = MatrixMult a b \<and> (\<exists>row_a \<in> set a. length row_a \<noteq> length b))"
proof (cases c)
  case (VectorMatrixMult v m)
  with assms show ?thesis
    by (simp add: lift1_Inl_iff vector_matrix_mult_mismatch)
next
  case (MatrixMult a b)
  with assms show ?thesis
    by (simp add: lift1_Inl_iff matrix_mult_mismatch)
qed (use assms in \<open>simp_all add: lift1_Inl_iff mismatched_rows_def magnitude_not add_not sub_not
    dot_not eldiv_not elmult_not normalize_not cross_not mult_not div_py_not
    quaternion_not[unfolded mismatched_rows_def] matrix_constant_mult_not matrix_vector_mult_not
    euler_to_rotation_matrix_not rotation_matrix_to_euler_not axis_angle_to_quaternion_not
    axis_angle_to_rotation_matrix_not[unfolded mismatched_rows_def] reshape_tuple_not\<close>)

lemma sum_gen_total:
  assumes "\<And>x. x \<in> set xs \<Longrightarrow> f x = Inr (g x)"
  shows "sum_gen f xs = Inr (sum_list (map g xs))"
  using collect_total[of xs f g, OF assms] by (simp add: sum_gen_def bind_Inr)

lemma vector_matrix_mult_loop_eq:
  assumes "rows \<le> length v" and "rows \<le> length m"
    and "\<forall>c \<in> set cs. \<forall>r < rows. c < length (m ! r)"
  shows "vector_matrix_mult_loop v m rows cs result
         = Inr (result @ map (\<lambda>c. \<Sum>r<rows. v ! r * m ! r ! c) cs)"
  using assms(3)
proof (induction cs arbitrary: result)
  case Nil
  show ?case by simp
next
  case (Cons c cs)
  have "sum_gen (\<lambda>r. lift2 (*) (item v r) (item2 m r c)) [0..<rows]
        = Inr (sum_list (map (\<lambda>r. v ! r * m ! r ! c) [0..<rows]))"
  proof (rule sum_gen_total)
    fix r assume "r \<in> set [0..<rows]"
    then have r: "r < rows" by simp
    with Cons.prems have "c < length (m ! r)" by simp
    with r assms(1,2) show "lift2 (*) (item v r) (item2 m r c) = Inr (v ! r * m ! r ! c)"
      by (simp add: item2_def item_in_range bind_Inr lift2_Inr)
  qed
  then have head: "sum_gen (\<lambda>r. lift2 (*) (item v r) (item2 m r c)) [0..<rows]
        = Inr (\<Sum>r<rows. v ! r * m ! r ! c)"
    by (simp add: interv_sum_list_conv_sum_set_nat atLeast0LessThan)
  have "vector_matrix_mult_loop v m rows cs (result @ [\<Sum>r<rows. v ! r * m ! r ! c])
        = Inr ((result @ [\<Sum>r<rows. v ! r * m ! r ! c])
               @ map (\<lambda>c. \<Sum>r<rows. v ! r * m ! r ! c) cs)"
    using Cons.prems by (intro Cons.IH) simp
  with head show ?case
    by (simp add: bind_Inr)
qed

lemma vector_matrix_mult_eq:
  assumes "length v = length m" and "m \<noteq> []" and "\<forall>row \<in> set m. length row = cols"
  shows "vector_matrix_mult v m = Inr (map (\<lambda>c. \<Sum>r<length m. v ! r * m ! r ! c) [0..<cols])"
proof -
  have m0: "item m 0 = Inr (m ! 0)" and cols: "length (m ! 0) = cols"
    using assms(2,3) by (simp_all add: item_def)
  have "vector_matrix_mult_loop v m (length m) [0..<cols] []
        = Inr ([] @ map (\<lambda>c. \<Sum>r<length m. v ! r * m ! r ! c) [0..<cols])"
    using assms(1,3) by (intro vector_matrix_mult_loop_eq) simp_all
  then show ?thesis
    using assms(1) by (simp add: vector_matrix_mult_def Let_def m0 cols bind_Inr)
qed

lemma collect_some_error:
  assumes "x \<in> set xs" and "f x = Inl e"
    and "\<And>y. y \<in> set xs \<Longrightarrow> (\<exists>r. f y = Inr r) \<or> f y = Inl e"
  shows "collect f xs = Inl e"
  using assms
proof (induction xs)
  case Nil
  then show ?case by simp
next
  case (Cons a xs)
  show ?case
  proof (cases "f a")
    case (Inl e')
    with Cons.prems(3)[of a] show ?thesis by simp
  next
    case (Inr r)
    with Cons.prems(1,2) have "x \<in> set xs" by auto
    then have "collect f xs = Inl e"
      using Cons.prems(2,3) by (intro Cons.IH) simp_all
    with Inr show ?thesis by simp
  qed
qed

lemma divide_by_zero: "divide (item u i) (Inr 0) = (if i < length u then Inl ZeroDivisionError else Inl IndexError)"
  by (simp add: divide_def item_def bind_def py_div_def)

lemma div_py_zero:
  assumes "u \<noteq> []"
  shows "div_py u 0 = Inl ZeroDivisionError"
  unfolding div_py_def
proof (rule collect_some_error[of 0])
  show "0 \<in> set [0..<length u]" using assms by simp
  show "divide (item u 0) (Inr 0) = Inl ZeroDivisionError"
    using assms by (simp add: divide_by_zero)
  show "(\<exists>r. divide (item u y) (Inr 0) = Inr r) \<or> divide (item u y) (Inr 0) = Inl ZeroDivisionError"
    if "y \<in> set [0..<length u]" for y
    using that by (simp add: divide_by_zero)
qed

lemma normalize_zero:
  assumes "v \<noteq> []" and "magnitude v = Inr 0"
  shows "normalize_py v = Inl ZeroDivisionError"
  using div_py_zero[OF assms(1)] assms(2)
  by (simp add: normalize_py_def div_py_def bind_Inr)

lemma eldiv_zero:
  assumes "length u \<le> length v" and "i < length u" and "v ! i = 0"
  shows "eldiv u v = Inl ZeroDivisionError"
  unfolding eldiv_def
proof (rule collect_some_error[of i])
  show "i \<in> set [0..<length u]" using assms(2) by simp
  show "divide (item u i) (item v i) = Inl ZeroDivisionError"
    using assms by (simp add: divide_def item_def bind_def py_div_def)
  show "(\<exists>r. divide (item u y) (item v y) = Inr r)
        \<or> divide (item u y) (item v y) = Inl ZeroDivisionError"
    if "y \<in> set [0..<length u]" for y
    using that assms(1) by (simp add: divide_def item_def bind_def py_div_def)
qed

text \<open>
  Claim C1, as amended. \<open>vector_matrix_mult v m\<close> raises the dimension-mismatch error
  if and only if the length of \<open>v\<close> differs from the number of rows of \<open>m\<close>. It is the
  only operation that makes this check: a call of the library that ends in this error is
  such a call, or a call of \<open>matrix_mult\<close> one of whose calls of \<open>vector_matrix_mult\<close>
  ends in it. The call with \<open>[1, 2]\<close> and a matrix of three rows raises the error. For
  every \<open>v\<close> and every rectangular \<open>m\<close> with at least one row and as many rows as \<open>v\<close>
  has elements, the result is the vector whose component \<open>c\<close> is the sum over the rows
  \<open>r\<close> of \<open>v[r] * m[r][c]\<close>.
\<close>

theorem vector_matrix_mult_validates_rows:
  "(vector_matrix_mult v m = Inl mismatched_rows \<longleftrightarrow> length v \<noteq> length m)
   \<and> (run c = Inl mismatched_rows \<longrightarrow>
        (\<exists>v' m'. c = VectorMatrixMult v' m' \<and> length v' \<noteq> length m')
        \<or> (\<exists>a b. c = MatrixMult a b
              \<and> (\<exists>row_a \<in> set a. vector_matrix_mult row_a b = Inl mismatched_rows)))
   \<and> vector_matrix_mult [1, 2] [[1, 0], [0, 1], [0, 0]] = Inl mismatched_rows
   \<and> (length v = length m \<and> m \<noteq> [] \<and> (\<forall>row \<in> set m. length row = cols) \<longrightarrow>
        vector_matrix_mult v m
        = Inr (map (\<lambda>c. \<Sum>r<length m. v ! r * m ! r ! c) [0..<cols]))"
  using run_mismatch[of c] vector_matrix_mult_eq[of v m cols]
  by (simp add: vector_matrix_mult_mismatch)

theorem vector_matrix_mult_validates_rows_witness:
  "run (VectorMatrixMult [1, 2] [[1, 0], [0, 1], [0, 0]]) = Inl mismatched_rows
   \<and> length [1, 2 :: real] \<noteq> length [[1, 0], [0, 1], [0, 0 :: real]]
   \<and> map length [[1, 0, 5], [0, 1, 7 :: real]] = [3, 3]
   \<and> vector_matrix_mult [1, 2] [[1, 0, 5], [0, 1, 7]] = Inr [1, 2, 19]"
proof -
  note t = vector_matrix_mult_validates_rows[of "[1, 2]" "[[1, 0, 5], [0, 1, 7]]"
      "VectorMatrixMult [1, 2] [[1, 0], [0, 1], [0, 0]]" 3]
  have r: "run (VectorMatrixMult [1, 2] [[1, 0], [0, 1], [0, 0]]) = Inl mismatched_rows"
    by (simp add: vector_matrix_mult_def lift1_def bind_Inl)
  have up: "[0..<3] = [0, 1, 2]"
    by (simp add: upt_rec)
  show ?thesis
    using t r by (simp add: up lessThan_Suc)
qed

text \<open>
  Claim C1 as written fails for the matrix without rows: the lengths agree, and the call
  raises IndexError when it reads the first row for the number of columns.
\<close>

theorem vector_matrix_mult_empty_matrix_raises:
  "length ([] :: real list) = length ([] :: real list list)
   \<and> vector_matrix_mult [] [] = Inl IndexError"
  by (simp add: vector_matrix_mult_def item_def bind_Inl)

text \<open>
  Claim C3, as amended. The only exception the module raises itself is the ValueError of
  \<open>vector_matrix_mult\<close> for a vector whose length differs from the number of rows; among
  all operations only \<open>vector_matrix_mult\<close>, and \<open>matrix_mult\<close> which calls it on every
  row of its first argument, can end in it. Division by zero is not guarded either, but it
  is not silent: \<open>normalize\<close> of a non-empty vector of magnitude zero, \<open>div\<close> of a
  non-empty vector by zero, and \<open>eldiv\<close> with a zero among the divisors that are read
  raise ZeroDivisionError, and return nothing.
\<close>

theorem only_explicit_error_and_division_raises:
  "(run c = Inl mismatched_rows \<longrightarrow>
      (\<exists>v m. c = VectorMatrixMult v m \<and> length v \<noteq> length m)
      \<or> (\<exists>a b. c = MatrixMult a b \<and> (\<exists>row_a \<in> set a. length row_a \<noteq> length b)))
   \<and> (v \<noteq> [] \<and> magnitude v = Inr 0 \<longrightarrow> normalize_py v = Inl ZeroDivisionError)
   \<and> (u \<noteq> [] \<longrightarrow> div_py u 0 = Inl ZeroDivisionError)
   \<and> (length u \<le> length w \<and> (\<exists>i<length u. w ! i = 0) \<longrightarrow> eldiv u w = Inl ZeroDivisionError)"
  using run_mismatch[of c] normalize_zero[of v] div_py_zero[of u] eldiv_zero[of u w]
  by blast

theorem only_explicit_error_and_division_raises_witness:
  "run (VectorMatrixMult [1, 2] [[1, 0], [0, 1], [0, 0]]) = Inl mismatched_rows
   \<and> length [1, 2 :: real] \<noteq> length [[1, 0], [0, 1], [0, 0 :: real]]
   \<and> magnitude [0, 0] = Inr 0 \<and> normalize_py [0, 0] = Inl ZeroDivisionError
   \<and> div_py [1] 0 = Inl ZeroDivisionError
   \<and> eldiv [1] [0] = Inl ZeroDivisionError"
proof -
  note t = only_explicit_error_and_division_raises[of "VectorMatrixMult [1, 2] [[1, 0], [0, 1], [0, 0]]" "[0, 0]" "[1]" "[0]"]
  have r: "run (VectorMatrixMult [1, 2] [[1, 0], [0, 1], [0, 0]]) = Inl mismatched_rows"
    by (simp add: vector_matrix_mult_def lift1_def bind_Inl)
  have m: "magnitude [0, 0] = Inr 0"
    by (simp add: magnitude_eq)
  have z: "\<exists>i<length [1 :: real]. [0 :: real] ! i = 0"
    by simp
  show ?thesis
    using t r m z by simp
qed

text \<open>
  Claim C3 as written fails: normalising the zero vector and dividing by the scalar zero
  raise, where the claim has them return lists with NaN or Infinity components.
\<close>

theorem division_by_zero_raises:
  "normalize_py [0, 0] = Inl ZeroDivisionError \<and> div_py [1] 0 = Inl ZeroDivisionError"
  by (simp add: normalize_zero div_py_zero magnitude_eq)

section \<open>The angle function and the Euler angles\<close>

lemma atan2_origin_side: "atan2 0 0 = 0"
  by (simp add: atan2_def)

lemma atan2_polar_right:
  assumes "0 < r" and "- (pi / 2) < t" and "t < pi / 2"
  shows "atan2 (r * sin t) (r * cos t) = t"
proof -
  have c: "0 < cos t" using assms(2,3) by (rule cos_gt_zero_pi)
  then have "0 < r * cos t" using assms(1) by simp
  moreover have "r * sin t / (r * cos t) = tan t"
    using assms(1) by (simp add: tan_def)
  ultimately show ?thesis
    using assms(2,3) by (simp add: atan2_def arctan_tan)
qed

lemma atan2_polar_upper_left:
  assumes "0 < r" and "pi / 2 < t" and "t \<le> pi"
  shows "atan2 (r * sin t) (r * cos t) = t"
proof -
  let ?s = "t - pi"
  have s: "- (pi / 2) < ?s" "?s < pi / 2" using assms(2,3) pi_gt_zero by simp_all
  have "0 < cos ?s" using s by (rule cos_gt_zero_pi)
  then have c: "cos t < 0" by simp
  have sn: "0 \<le> sin t" using assms(2,3) pi_gt_zero by (intro sin_ge_zero) simp_all
  have x: "r * cos t < 0" using c assms(1) by (simp add: mult_pos_neg)
  have y: "0 \<le> r * sin t" using sn assms(1) by simp
  have "r * sin t / (r * cos t) = tan ?s"
    using assms(1) by (simp add: tan_def)
  then have "arctan (r * sin t / (r * cos t)) = ?s"
    using s by (simp only: arctan_tan)
  then show ?thesis
    using x y by (simp add: atan2_def)
qed

lemma atan2_polar_lower_left:
  assumes "0 < r" and "- pi < t" and "t < - (pi / 2)"
  shows "atan2 (r * sin t) (r * cos t) = t"
proof -
  let ?s = "t + pi"
  have s: "- (pi / 2) < ?s" "?s < pi / 2" using assms(2,3) pi_gt_zero by simp_all
  have "0 < cos ?s" using s by (rule cos_gt_zero_pi)
  then have c: "cos t < 0" by simp
  have "0 < sin (- t)" using assms(2,3) pi_gt_zero by (intro sin_gt_zero) simp_all
  then have sn: "sin t < 0" by simp
  have x: "r * cos t < 0" using c assms(1) by (simp add: mult_pos_neg)
  have y: "r * sin t < 0" using sn assms(1) by (simp add: mult_pos_neg)
  have "r * sin t / (r * cos t) = tan ?s"
    using assms(1) by (simp add: tan_def)
  then have "arctan (r * sin t / (r * cos t)) = ?s"
    using s by (simp only: arctan_tan)
  then show ?thesis
    using x y by (simp add: atan2_def)
qed

lemma atan2_polar:
  assumes "0 < r" and "- pi < t" and "t \<le> pi"
  shows "atan2 (r * sin t) (r * cos t) = t"
proof -
  consider "t < - (pi / 2)" | "t = - (pi / 2)" | "- (pi / 2) < t \<and> t < pi / 2"
    | "t = pi / 2" | "pi / 2 < t"
    by linarith
  then show ?thesis
  proof cases
    case 1
    with assms show ?thesis by (simp add: atan2_polar_lower_left)
  next
    case 2
    have "atan2 (r * sin (- (pi / 2))) (r * cos (- (pi / 2))) = - (pi / 2)"
      using assms(1) by (simp add: atan2_def)
    then show ?thesis unfolding 2 .
  next
    case 3
    with assms show ?thesis by (simp add: atan2_polar_right)
  next
    case 4
    have "atan2 (r * sin (pi / 2)) (r * cos (pi / 2)) = pi / 2"
      using assms(1) by (simp add: atan2_def)
    then show ?thesis unfolding 4 .
  next
    case 5
    with assms show ?thesis by (simp add: atan2_polar_upper_left)
  qed
qed

lemma atan2_sin_cos: "- pi < t \<Longrightarrow> t \<le> pi \<Longrightarrow> atan2 (sin t) (cos t) = t"
  using atan2_polar[of 1 t] by simp

lemma cos_atan2_nonzero:
  assumes "x \<noteq> 0"
  shows "cos (atan2 y x) \<noteq> 0"
  using assms by (simp add: atan2_def cos_arctan_not_zero)

lemmas plumbing_defs = item2_def item_def bind_def lift1_def lift2_def divide_def py_div_def

lemma tolerance_positive: "0 < MATRIX_TO_EULER_TOLERANCE"
  by (simp add: MATRIX_TO_EULER_TOLERANCE_def)

text \<open>
  The three branches of \<open>rotation_matrix_to_euler\<close> on a matrix of three rows of three
  elements. The first branch divides by the cosine of the azimuth, which is not zero
  there; the second divides by its sine.
\<close>

lemma rotation_matrix_to_euler_first:
  assumes "MATRIX_TO_EULER_TOLERANCE < fabs m00"
  shows "rotation_matrix_to_euler [[m00, m01, m02], [m10, m11, m12], [m20, m21, m22]]
         = Inr [atan2 m10 m00, atan2 (- m20) (m00 / cos (atan2 m10 m00)), atan2 m21 m22]"
proof -
  have "m00 \<noteq> 0"
    using assms tolerance_positive by (auto simp: fabs_def)
  then have "cos (atan2 m10 m00) \<noteq> 0"
    by (rule cos_atan2_nonzero)
  with assms show ?thesis
    by (simp add: rotation_matrix_to_euler_def Let_def plumbing_defs)
qed

lemma rotation_matrix_to_euler_second:
  assumes "fabs m00 \<le> MATRIX_TO_EULER_TOLERANCE" and "MATRIX_TO_EULER_TOLERANCE < fabs m01"
    and "sin (atan2 m10 m00) \<noteq> 0"
  shows "rotation_matrix_to_euler [[m00, m01, m02], [m10, m11, m12], [m20, m21, m22]]
         = Inr [atan2 m10 m00, atan2 (- m20) (m10 / sin (atan2 m10 m00)), atan2 m21 m22]"
  using assms by (simp add: rotation_matrix_to_euler_def Let_def plumbing_defs)

lemma rotation_matrix_to_euler_third:
  assumes "fabs m00 \<le> MATRIX_TO_EULER_TOLERANCE" and "fabs m01 \<le> MATRIX_TO_EULER_TOLERANCE"
  shows "rotation_matrix_to_euler [[m00, m01, m02], [m10, m11, m12], [m20, m21, m22]]
         = Inr [0, atan2 (- m20) 0, atan2 (- m12) (- m02 * m20)]"
  using assms by (simp add: rotation_matrix_to_euler_def Let_def plumbing_defs)

lemma euler_to_rotation_matrix_eq:
  "euler_to_rotation_matrix [az, el, roll] =
     Inr [[cos az * cos el,
           cos az * sin el * sin roll - sin az * cos roll,
           cos az * sin el * cos roll + sin az * sin roll],
          [sin az * cos el,
           sin az * sin el * sin roll + cos az * cos roll,
           sin az * sin el * cos roll - cos az * sin roll],
          [- sin el, cos el * sin roll, cos el * cos roll]]"
  by (simp add: euler_to_rotation_matrix_def Let_def item_def bind_def)

text \<open>
  Claim C2. The claim has \<open>rotation_matrix_to_euler\<close> return, for every matrix of three
  rows of three elements in the second branch (\<open>|m[0][0]|\<close> at most the tolerance,
  \<open>|m[0][1]|\<close> above it), the azimuth \<open>atan2(m[1][0], m[0][0])\<close>, the roll
  \<open>atan2(m[2][1], m[2][2])\<close> and the elevation \<open>atan2(-m[2][0], m[1][0] / sin(azimuth))\<close>.
  The code does not: the rotation matrix of the Euler angles \<open>[0, -\<pi>/2, -\<pi>/2]\<close> is in
  the second branch, its azimuth is \<open>atan2(0, 0) = 0\<close>, and the division
  \<open>m[1][0] / sin(azimuth)\<close> raises ZeroDivisionError. The guard of the second branch
  reads \<open>m[0][1]\<close>, and the branch divides \<open>m[1][0]\<close> by a sine that is zero with it.
\<close>

theorem rotation_matrix_to_euler_second_branch_raises:
  "euler_to_rotation_matrix [0, - (pi / 2), - (pi / 2)] = Inr [[0, 1, 0], [0, 0, 1], [1, 0, 0]]
   \<and> fabs 0 \<le> MATRIX_TO_EULER_TOLERANCE \<and> MATRIX_TO_EULER_TOLERANCE < fabs 1
   \<and> rotation_matrix_to_euler [[0, 1, 0], [0, 0, 1], [1, 0, 0]] = Inl ZeroDivisionError"
proof -
  have "euler_to_rotation_matrix [0, - (pi / 2), - (pi / 2)]
        = Inr [[0, 1, 0], [0, 0, 1], [1, 0, 0]]"
    by (simp add: euler_to_rotation_matrix_eq)
  moreover have "rotation_matrix_to_euler [[0, 1, 0], [0, 0, 1], [1, 0, 0]]
        = Inl ZeroDivisionError"
    by (simp add: rotation_matrix_to_euler_def Let_def plumbing_defs fabs_def
        MATRIX_TO_EULER_TOLERANCE_def atan2_def)
  ultimately show ?thesis
    by (simp add: fabs_def MATRIX_TO_EULER_TOLERANCE_def)
qed

text \<open>
  Where the first branch is taken, or the second with a sine of the azimuth that is not
  zero, Euler angles in the principal ranges come back from their rotation matrix.
\<close>

lemma euler_round_trip_once:
  assumes az: "- pi < az" "az \<le> pi" and el: "- (pi / 2) < el" "el < pi / 2"
    and roll: "- pi < roll" "roll \<le> pi"
    and branch: "MATRIX_TO_EULER_TOLERANCE < fabs (cos az * cos el)
      \<or> (MATRIX_TO_EULER_TOLERANCE < fabs (cos az * sin el * sin roll - sin az * cos roll)
          \<and> sin az \<noteq> 0)"
  shows "bind (euler_to_rotation_matrix [az, el, roll]) rotation_matrix_to_euler
         = Inr [az, el, roll]"
proof -
  have cel: "0 < cos el"
    using el by (rule cos_gt_zero_pi)
  have a0: "atan2 (sin az * cos el) (cos az * cos el) = az"
    using atan2_polar[OF cel az] by (simp add: mult.commute)
  have a2: "atan2 (cos el * sin roll) (cos el * cos roll) = roll"
    using cel roll by (rule atan2_polar)
  have a1: "atan2 (sin el) (cos el) = el"
    using el pi_gt_zero by (intro atan2_sin_cos) simp_all
  let ?m01 = "cos az * sin el * sin roll - sin az * cos roll"
  let ?m02 = "cos az * sin el * cos roll + sin az * sin roll"
  let ?m11 = "sin az * sin el * sin roll + cos az * cos roll"
  let ?m12 = "sin az * sin el * cos roll - cos az * sin roll"
  show ?thesis
  proof (cases "MATRIX_TO_EULER_TOLERANCE < fabs (cos az * cos el)")
    case True
    then have "cos az * cos el \<noteq> 0"
      using tolerance_positive by (auto simp: fabs_def)
    then have "cos az \<noteq> 0" by simp
    then have "cos az * cos el / cos az = cos el" by simp
    then show ?thesis
      using rotation_matrix_to_euler_first[OF True, of ?m01 ?m02 "sin az * cos el" ?m11 ?m12
          "- sin el" "cos el * sin roll" "cos el * cos roll"]
      by (simp add: euler_to_rotation_matrix_eq bind_Inr a0 a1 a2)
  next
    case False
    with branch have m01: "MATRIX_TO_EULER_TOLERANCE < fabs ?m01" and s: "sin az \<noteq> 0"
      by simp_all
    from False have m00: "fabs (cos az * cos el) \<le> MATRIX_TO_EULER_TOLERANCE"
      by simp
    have s': "sin (atan2 (sin az * cos el) (cos az * cos el)) \<noteq> 0"
      using s by (simp add: a0)
    have "sin az * cos el / sin az = cos el"
      using s by simp
    then show ?thesis
      using rotation_matrix_to_euler_second[OF m00 m01 s', of ?m02 ?m11 ?m12
          "- sin el" "cos el * sin roll" "cos el * cos roll"]
      by (simp add: euler_to_rotation_matrix_eq bind_Inr a0 a1 a2)
  qed
qed

text \<open>
  \<open>atan2\<close> returns principal values: a roll of \<open>2\<pi>\<close> comes back as \<open>0\<close>.
\<close>

lemma euler_round_trip_principal_values:
  "bind (euler_to_rotation_matrix [0, 0, 2 * pi]) rotation_matrix_to_euler = Inr [0, 0, 0]"
proof -
  have "euler_to_rotation_matrix [0, 0, 2 * pi] = Inr [[1, 0, 0], [0, 1, 0], [0, 0, 1]]"
    by (simp add: euler_to_rotation_matrix_eq)
  moreover have "rotation_matrix_to_euler [[1, 0, 0], [0, 1, 0], [0, 0, 1]] = Inr [0, 0, 0]"
    using rotation_matrix_to_euler_first[of 1 0 0 0 1 0 0 0 1]
    by (simp add: fabs_def MATRIX_TO_EULER_TOLERANCE_def atan2_def)
  ultimately show ?thesis
    by (simp add: bind_Inr)
qed

text \<open>
  Claim C7. The claim has the Euler angles come back (approximately) from the rotation
  matrix, converting there and back twice, for every triple away from gimbal lock. The
  code does not: for the triple \<open>[\<pi>/2, 0, \<pi>/2]\<close>, in the principal ranges and of
  elevation \<open>0\<close>, the rotation matrix has \<open>m[0][0] = m[0][1] = 0\<close>, so that
  \<open>rotation_matrix_to_euler\<close> takes its gimbal-lock branch, and the triple comes back as
  \<open>[0, 0, 0]\<close>, after one conversion there and back as after two: the azimuth is lost.
  The guard before the gimbal-lock branch reads \<open>m[0][1]\<close>, where \<open>m[1][0] = 1\<close> shows
  that the cosine of the elevation is not zero.
\<close>

theorem euler_round_trip_loses_azimuth:
  "euler_to_rotation_matrix [pi / 2, 0, pi / 2] = Inr [[0, 0, 1], [1, 0, 0], [0, 1, 0]]
   \<and> bind (euler_to_rotation_matrix [pi / 2, 0, pi / 2]) rotation_matrix_to_euler
       = Inr [0, 0, 0]
   \<and> bind (bind (bind (euler_to_rotation_matrix [pi / 2, 0, pi / 2]) rotation_matrix_to_euler)
                 euler_to_rotation_matrix) rotation_matrix_to_euler
       = Inr [0, 0, 0]
   \<and> 1 \<le> \<bar>pi / 2 - 0\<bar>"
proof -
  have m: "euler_to_rotation_matrix [pi / 2, 0, pi / 2]
        = Inr [[0, 0, 1], [1, 0, 0], [0, 1, 0]]"
    by (simp add: euler_to_rotation_matrix_eq)
  have lock: "rotation_matrix_to_euler [[0, 0, 1], [1, 0, 0], [0, 1, 0]] = Inr [0, 0, 0]"
    using rotation_matrix_to_euler_third[of 0 0 1 1 0 0 0 1 0]
    by (simp add: fabs_def MATRIX_TO_EULER_TOLERANCE_def atan2_def)
  have "euler_to_rotation_matrix [0, 0, 0] = Inr [[1, 0, 0], [0, 1, 0], [0, 0, 1]]"
    by (simp add: euler_to_rotation_matrix_eq)
  moreover have "rotation_matrix_to_euler [[1, 0, 0], [0, 1, 0], [0, 0, 1]] = Inr [0, 0, 0]"
    using rotation_matrix_to_euler_first[of 1 0 0 0 1 0 0 0 1]
    by (simp add: fabs_def MATRIX_TO_EULER_TOLERANCE_def atan2_def)
  moreover have "1 \<le> \<bar>pi / 2 - 0\<bar>"
    using pi_ge_two by simp
  ultimately show ?thesis
    using m lock by (simp add: bind_Inr)
qed

section \<open>No operation changes or shares a list of its caller\<close>

lemma bind_s_Inl: "bind_s (s, Inl e) f = (s, Inl e)"
  by (simp add: bind_s_def)

lemma bind_s_Inr: "bind_s (s, Inr x) f = f s x"
  by (simp add: bind_s_def)

lemma bind_s_rule:
  assumes "P (fst r)" and "\<And>s x. P s \<Longrightarrow> Q (f s x)" and "\<And>s e. P s \<Longrightarrow> Q (s, Inl e)"
  shows "Q (bind_s r f)"
proof (cases r)
  case (Pair s x)
  with assms show ?thesis
    by (cases x) (simp_all add: bind_s_def)
qed

lemma unchanged_refl: "unchanged s s"
  by (simp add: unchanged_def)

lemma unchanged_trans: "unchanged s s1 \<Longrightarrow> unchanged s1 s2 \<Longrightarrow> unchanged s s2"
  unfolding unchanged_def
  by (metis append_eq_conv_conj append_take_drop_id take_all_iff take_append le_trans
      append.assoc)

lemma unchanged_append: "unchanged s (s @ added)"
  by (simp add: unchanged_def)

lemma unchanged_length: "unchanged s s' \<Longrightarrow> length s \<le> length s'"
  by (simp add: unchanged_def)

lemma unchanged_update:
  assumes "unchanged s0 s" and "length s0 \<le> p"
  shows "unchanged s0 (s[p := ob])"
  using assms by (simp add: unchanged_def)

lemma fresh_earlier:
  assumes "fresh s1 s' p" and "length s0 \<le> length s1"
  shows "fresh s0 s' p"
  using assms unfolding fresh_def list_all_iff by auto

lemma allocates_earlier:
  assumes "allocates s1 res" and "unchanged s0 s1"
  shows "allocates s0 res"
  using assms unchanged_trans[of s0 s1 "fst res"] fresh_earlier[of s1 "fst res" _ s0]
  by (auto simp: allocates_def unchanged_length split: sum.splits)

lemma allocates_error: "unchanged s0 s \<Longrightarrow> allocates s0 (s, Inl e)"
  by (simp add: allocates_def)

lemma allocates_new_numbers: "allocates s (new s (Numbers xs))"
  by (simp add: allocates_def new_def unchanged_append fresh_def rows_at_def)

lemma allocates_bind:
  assumes "unchanged s (fst r)" and "\<And>s1 x. unchanged s s1 \<Longrightarrow> allocates s1 (f s1 x)"
  shows "allocates s (bind_s r f)"
proof (rule bind_s_rule[where P = "unchanged s"])
  show "unchanged s (fst r)" by fact
  show "allocates s (f s1 x)" if "unchanged s s1" for s1 x
    using assms(2)[OF that] that by (rule allocates_earlier)
  show "allocates s (s1, Inl e)" if "unchanged s s1" for s1 e
    using that by (rule allocates_error)
qed

lemma allocates_numbers: "allocates s (bind_s (s, r) (\<lambda>s xs. new s (Numbers xs)))"
  by (intro allocates_bind) (simp_all add: unchanged_refl allocates_new_numbers)

lemma new_rows_eq:
  "new_rows s rows = (s @ map Numbers rows, Inr [length s..<length s + length rows])"
proof (induction rows arbitrary: s)
  case Nil
  show ?case by simp
next
  case (Cons row rows)
  have step: "[length s..<Suc (length s + length rows)]
        = length s # [Suc (length s)..<Suc (length s + length rows)]"
    by (rule upt_conv_Cons) simp
  show ?case
    by (simp add: new_def bind_s_Inr Cons.IH step del: upt_Suc)
qed

lemma allocates_new_matrix: "allocates s (new_matrix s rows)"
proof -
  have "list_all (\<lambda>q. length s \<le> q \<and> q < Suc (length s + length rows))
          [length s..<length s + length rows]"
    by (simp add: list_all_iff)
  then show ?thesis
    by (simp add: new_matrix_def new_rows_eq bind_s_Inr new_def allocates_def unchanged_append
        fresh_def rows_at_def nth_append unchanged_def)
qed

lemma allocates_unchanged: "allocates s res \<Longrightarrow> unchanged s (fst res)"
  by (simp add: allocates_def)

lemma collect_s_fresh:
  assumes "\<And>s x. allocates s (f s x)"
  shows "unchanged s (fst (collect_s f s xs))
       \<and> (\<forall>ps. snd (collect_s f s xs) = Inr ps \<longrightarrow>
            list_all (\<lambda>q. length s \<le> q \<and> q < length (fst (collect_s f s xs))) ps)"
proof (induction xs arbitrary: s)
  case Nil
  show ?case by (simp add: unchanged_refl)
next
  case (Cons x xs)
  obtain s1 r1 where f: "f s x = (s1, r1)"
    by (cases "f s x")
  have a: "allocates s (s1, r1)"
    using assms[of s x] f by simp
  then have u1: "unchanged s s1"
    by (simp add: allocates_def)
  show ?case
  proof (cases r1)
    case (Inl e)
    with f u1 show ?thesis by (simp add: bind_s_Inl)
  next
    case (Inr p)
    with a have p: "length s \<le> p" "p < length s1"
      by (simp_all add: allocates_def fresh_def)
    obtain s2 r2 where c: "collect_s f s1 xs = (s2, r2)"
      by (cases "collect_s f s1 xs")
    from Cons.IH[of s1] c have u2: "unchanged s1 s2"
      and ps: "\<And>ps. r2 = Inr ps \<Longrightarrow> list_all (\<lambda>q. length s1 \<le> q \<and> q < length s2) ps"
      by simp_all
    have u: "unchanged s s2"
      using u1 u2 by (rule unchanged_trans)
    have l: "length s \<le> length s1" "length s1 \<le> length s2"
      using u1 u2 by (simp_all add: unchanged_length)
    show ?thesis
    proof (cases r2)
      case (Inl e)
      with f Inr c u show ?thesis by (simp add: bind_s_Inl bind_s_Inr)
    next
      case r2: (Inr qs)
      have "list_all (\<lambda>q. length s \<le> q \<and> q < length s2) qs"
        using ps[OF r2] l unfolding list_all_iff by auto
      with f Inr c r2 u p l show ?thesis
        by (simp add: bind_s_Inr)
    qed
  qed
qed

lemma allocates_rows:
  assumes "\<And>s x. allocates s (f s x)"
  shows "allocates s (bind_s (collect_s f s xs) (\<lambda>s ps. new s (Rows ps)))"
proof -
  obtain s2 r2 where c: "collect_s f s xs = (s2, r2)"
    by (cases "collect_s f s xs")
  from collect_s_fresh[of f s xs, OF assms] c have u: "unchanged s s2"
    and ps: "\<And>ps. r2 = Inr ps \<Longrightarrow> list_all (\<lambda>q. length s \<le> q \<and> q < length s2) ps"
    by simp_all
  show ?thesis
  proof (cases r2)
    case (Inl e)
    with c u show ?thesis by (simp add: bind_s_Inl allocates_error)
  next
    case (Inr qs)
    have "list_all (\<lambda>q. length s \<le> q \<and> q < Suc (length s2)) qs"
      using ps[OF Inr] unfolding list_all_iff by auto
    moreover have "unchanged s (s2 @ [Rows qs])"
      using u unchanged_append by (rule unchanged_trans)
    ultimately show ?thesis
      using c Inr unchanged_length[OF u]
      by (simp add: bind_s_Inr new_def allocates_def fresh_def rows_at_def)
  qed
qed

lemma local_list_allocates:
  assumes "local_list s0 p s"
  shows "allocates s0 (s, Inr p)"
  using assms by (auto simp: local_list_def allocates_def fresh_def rows_at_def)

lemma local_list_error: "local_list s0 p s \<Longrightarrow> allocates s0 (s, Inl e)"
  by (simp add: local_list_def allocates_def)

lemma local_list_new: "local_list s (length s) (s @ [Numbers xs])"
  by (simp add: local_list_def unchanged_append)

lemma local_list_append_number:
  assumes "local_list s0 p s"
  shows "local_list s0 p (fst (append_number s p x))"
  using assms by (auto simp: local_list_def append_number_def unchanged_update)

lemma local_list_set_number:
  assumes "local_list s0 p s"
  shows "local_list s0 p (fst (set_number s p i x))"
  using assms by (auto simp: local_list_def set_number_def unchanged_update)

lemma returns_local_allocates:
  assumes "returns_local s0 p res"
  shows "allocates s0 res"
proof (cases res)
  case (Pair s r)
  with assms show ?thesis
    by (cases r) (simp_all add: returns_local_def local_list_allocates local_list_error)
qed

lemma returns_local_error: "local_list s0 p s \<Longrightarrow> returns_local s0 p (s, Inl e)"
  by (simp add: returns_local_def)

lemma returns_local_pure:
  assumes "local_list s0 p s" and "\<And>s x. local_list s0 p s \<Longrightarrow> returns_local s0 p (f s x)"
  shows "returns_local s0 p (bind_s (s, r) f)"
proof (rule bind_s_rule[where P = "local_list s0 p"])
  show "local_list s0 p (fst (s, r))"
    using assms(1) by simp
  show "returns_local s0 p (f s1 x)" if "local_list s0 p s1" for s1 x
    using that by (rule assms(2))
  show "returns_local s0 p (s1, Inl e)" if "local_list s0 p s1" for s1 e
    using that by (rule returns_local_error)
qed

lemma returns_local_append:
  assumes "local_list s0 p s" and "\<And>s u. local_list s0 p s \<Longrightarrow> returns_local s0 p (f s u)"
  shows "returns_local s0 p (bind_s (append_number s p x) f)"
proof (rule bind_s_rule[where P = "local_list s0 p"])
  show "local_list s0 p (fst (append_number s p x))"
    using assms(1) by (rule local_list_append_number)
  show "returns_local s0 p (f s1 u)" if "local_list s0 p s1" for s1 u
    using that by (rule assms(2))
  show "returns_local s0 p (s1, Inl e)" if "local_list s0 p s1" for s1 e
    using that by (rule returns_local_error)
qed

lemma returns_local_set:
  assumes "local_list s0 p s" and "\<And>s u. local_list s0 p s \<Longrightarrow> returns_local s0 p (f s u)"
  shows "returns_local s0 p (bind_s (set_number s p i x) f)"
proof (rule bind_s_rule[where P = "local_list s0 p"])
  show "local_list s0 p (fst (set_number s p i x))"
    using assms(1) by (rule local_list_set_number)
  show "returns_local s0 p (f s1 u)" if "local_list s0 p s1" for s1 u
    using that by (rule assms(2))
  show "returns_local s0 p (s1, Inl e)" if "local_list s0 p s1" for s1 e
    using that by (rule returns_local_error)
qed

lemma returns_local_return: "local_list s0 p s \<Longrightarrow> returns_local s0 p (s, Inr p)"
  by (simp add: returns_local_def)

lemma vector_matrix_mult_loop_s_local:
  assumes "local_list s0 result s"
  shows "returns_local s0 result (vector_matrix_mult_loop_s s v m rows cs result)"
  using assms
proof (induction cs arbitrary: s)
  case Nil
  then show ?case by (simp add: returns_local_return)
next
  case (Cons c cs)
  show ?case
    unfolding vector_matrix_mult_loop_s.simps
    by (intro returns_local_pure returns_local_append Cons.IH Cons.prems)
qed

lemma returns_local_if:
  "returns_local s0 p a \<Longrightarrow> returns_local s0 p b \<Longrightarrow> returns_local s0 p (if c then a else b)"
  by simp

lemma allocates_vector_matrix_mult_s: "allocates s (vector_matrix_mult_s s v m)"
proof (cases "length (vector_at s v) \<noteq> length (rows_at s m)")
  case True
  then show ?thesis
    by (simp add: vector_matrix_mult_s_def Let_def allocates_error unchanged_refl)
next
  case False
  have loop: "allocates s1 (bind_s (new s1 (Numbers [])) (\<lambda>s result.
          vector_matrix_mult_loop_s s v m rows cs result))" for s1 rows cs
  proof -
    have "returns_local s1 (length s1)
            (vector_matrix_mult_loop_s (s1 @ [Numbers []]) v m rows cs (length s1))"
      by (intro vector_matrix_mult_loop_s_local local_list_new)
    then have "allocates s1 (vector_matrix_mult_loop_s (s1 @ [Numbers []]) v m rows cs (length s1))"
      by (rule returns_local_allocates)
    then show ?thesis
      by (simp add: new_def bind_s_Inr)
  qed
  have "allocates s (bind_s (s, item (matrix_at s m) 0) (\<lambda>s m0.
          bind_s (new s (Numbers [])) (\<lambda>s result.
            vector_matrix_mult_loop_s s v m (length (rows_at s0 m)) [0..<length m0] result)))"
    for s0
  proof (rule allocates_bind)
    show "unchanged s (fst (s, item (matrix_at s m) 0))"
      by (simp add: unchanged_refl)
  next
    fix s1 :: store and m0 :: "real list"
    show "allocates s1 (bind_s (new s1 (Numbers [])) (\<lambda>s result.
            vector_matrix_mult_loop_s s v m (length (rows_at s0 m)) [0..<length m0] result))"
      by (rule loop)
  qed
  from this[of s] False show ?thesis
    by (simp add: vector_matrix_mult_s_def Let_def)
qed

lemma allocates_rotation_matrix_to_euler_s: "allocates s (rotation_matrix_to_euler_s s m)"
proof -
  have "returns_local s (length s) (rotation_matrix_to_euler_s s m)"
    unfolding rotation_matrix_to_euler_s_def new_def bind_s_Inr
    apply (intro returns_local_pure returns_local_set returns_local_return returns_local_if)
                        apply (assumption | rule local_list_new)+
    done
  then show ?thesis
    by (rule returns_local_allocates)
qed

lemma reshape_row_s_store:
  assumes "row < length s" and "\<exists>xs. s ! row = Numbers xs"
  shows "\<exists>ys. fst (reshape_row_s s a k index row) = s[row := Numbers ys]"
  using assms
proof (induction k arbitrary: s index)
  case 0
  then obtain xs where "s ! row = Numbers xs" by blast
  then have "s = s[row := Numbers xs]" by (metis list_update_id)
  then show ?case by auto
next
  case (Suc k)
  show ?case
  proof (cases "item (vector_at s a) index")
    case (Inl e)
    from Suc.prems obtain xs where "s ! row = Numbers xs" by blast
    then have "s = s[row := Numbers xs]" by (metis list_update_id)
    with Inl show ?thesis by (auto simp: bind_s_Inl)
  next
    case (Inr x)
    let ?s1 = "s[row := Numbers (vector_at s row @ [x])]"
    have "\<exists>ys. fst (reshape_row_s ?s1 a k (index + 1) row) = ?s1[row := Numbers ys]"
      using Suc.prems by (intro Suc.IH) simp_all
    then show ?thesis
      using Inr by (simp add: bind_s_Inr append_number_def)
  qed
qed

lemma local_rows_after_row:
  assumes "local_rows s0 b s"
  shows "local_rows s0 b ((s @ [Numbers xs])[length s := Numbers ys])"
proof -
  from assms have u: "unchanged s0 s" and b: "length s0 \<le> b" "b < length s"
    and rs: "list_all (\<lambda>q. length s0 \<le> q \<and> q < length s) (rows_at s b)"
    and ob: "\<exists>rs. s ! b = Rows rs"
    by (simp_all add: local_rows_def)
  have "unchanged s0 (s @ [Numbers xs])"
    using u unchanged_append by (rule unchanged_trans)
  then have "unchanged s0 ((s @ [Numbers xs])[length s := Numbers ys])"
    using unchanged_length[OF u] by (rule unchanged_update)
  moreover have "((s @ [Numbers xs])[length s := Numbers ys]) ! b = s ! b"
    using b by (simp add: nth_append)
  moreover have "list_all (\<lambda>q. length s0 \<le> q \<and> q < Suc (length s)) (rows_at s b)"
    using rs unfolding list_all_iff by auto
  ultimately show ?thesis
    using b ob by (auto simp: local_rows_def rows_at_def)
qed

lemma local_rows_append_row:
  assumes "local_rows s0 b s" and "length s0 \<le> row" and "row < length s"
  shows "local_rows s0 b (fst (append_row s b row))"
proof -
  from assms(1) have u: "unchanged s0 s" and b: "length s0 \<le> b" "b < length s"
    and rs: "list_all (\<lambda>q. length s0 \<le> q \<and> q < length s) (rows_at s b)"
    by (simp_all add: local_rows_def)
  have "unchanged s0 (s[b := Rows (rows_at s b @ [row])])"
    using u b(1) by (rule unchanged_update)
  then show ?thesis
    using b rs assms(2,3) by (simp add: local_rows_def append_row_def rows_at_def)
qed

lemma reshape_rows_s_local:
  assumes "local_rows s0 b s"
  shows "local_rows s0 b (fst (reshape_rows_s s a k cols index b))
       \<and> (\<forall>q. snd (reshape_rows_s s a k cols index b) = Inr q \<longrightarrow> q = b)"
  using assms
proof (induction k arbitrary: s index)
  case 0
  then show ?case by simp
next
  case (Suc k)
  let ?s1 = "s @ [Numbers []]"
  obtain s2 r2 where row: "reshape_row_s ?s1 a cols index (length s) = (s2, r2)"
    by (cases "reshape_row_s ?s1 a cols index (length s)")
  have "\<exists>ys. fst (reshape_row_s ?s1 a cols index (length s)) = ?s1[length s := Numbers ys]"
    by (intro reshape_row_s_store) simp_all
  with row obtain ys where s2: "s2 = ?s1[length s := Numbers ys]"
    by auto
  have l2: "local_rows s0 b s2"
    unfolding s2 using Suc.prems by (rule local_rows_after_row)
  show ?case
  proof (cases r2)
    case (Inl e)
    with row l2 show ?thesis
      by (simp add: new_def bind_s_Inr bind_s_Inl)
  next
    case (Inr index')
    have "length s0 \<le> length s"
      using Suc.prems by (simp add: local_rows_def unchanged_length)
    moreover have "length s < length s2"
      by (simp add: s2)
    ultimately have l3: "local_rows s0 b (fst (append_row s2 b (length s)))"
      using l2 by (intro local_rows_append_row)
    have "reshape_rows_s s a (Suc k) cols index b
          = reshape_rows_s (fst (append_row s2 b (length s))) a k cols index' b"
      using row Inr by (simp add: new_def bind_s_Inr append_row_def)
    with Suc.IH[OF l3] show ?thesis
      by simp
  qed
qed

lemma allocates_reshape_tuple_s: "allocates s (reshape_tuple_s s a new_shape)"
proof -
  have "local_rows s (length s) (s @ [Rows []])"
    by (simp add: local_rows_def unchanged_append rows_at_def)
  from reshape_rows_s_local[OF this, of a "nat (fst new_shape)" "nat (snd new_shape)" 0]
  show ?thesis
    by (auto simp: reshape_tuple_s_def new_def bind_s_Inr allocates_def local_rows_def fresh_def
        split: sum.splits)
qed

lemma allocates_reshape_int_s: "allocates s (reshape_int_s s a new_shape)"
  by (simp add: reshape_int_s_def new_def bind_s_Inr allocates_def unchanged_def fresh_def
      rows_at_def nth_append)

lemma allocates_normalize_s: "allocates s (normalize_s s v)"
  unfolding normalize_s_def magnitude_s_def
  by (rule allocates_bind) (simp_all add: unchanged_refl allocates_numbers)

lemma allocates_div_s: "allocates s (div_s s u c)"
  unfolding div_s_def by (rule allocates_numbers)

lemma allocates_mult_s: "allocates s (mult_s s u c)"
  unfolding mult_s_def by (rule allocates_numbers)

lemma allocates_quaternion_to_rotation_matrix_s:
  "allocates s (quaternion_to_rotation_matrix_s s q)"
  unfolding quaternion_to_rotation_matrix_s_def magnitude_s_def
proof (rule allocates_bind)
  show "unchanged s (fst (s, magnitude (vector_at s q)))"
    by (simp add: unchanged_refl)
next
  fix s1 :: store and mag_q :: real
  show "allocates s1
          (bind_s (div_s s1 q mag_q)
            (\<lambda>s norm_q.
                case vector_at s norm_q of
                  [qw, qx, qy, qz] \<Rightarrow>
                    new_matrix s
                      [[qw * qw + qx * qx - qy * qy - qz * qz, 2 * qx * qy - 2 * qw * qz,
                        2 * qx * qz + 2 * qw * qy],
                       [2 * qx * qy + 2 * qw * qz, qw * qw - qx * qx + qy * qy - qz * qz,
                        2 * qy * qz - 2 * qw * qx],
                       [2 * qx * qz - 2 * qw * qy, 2 * qy * qz + 2 * qw * qx,
                        qw * qw - qx * qx - qy * qy + qz * qz]]
                | xs \<Rightarrow>
                    (s, Inl (ValueError (if length xs < 4 then ''not enough values to unpack''
                                         else ''too many values to unpack'')))))"
  proof (rule allocates_bind)
    show "unchanged s1 (fst (div_s s1 q mag_q))"
      using allocates_div_s by (rule allocates_unchanged)
  next
    fix s2 :: store and norm_q :: nat
    show "allocates s2
          (case vector_at s2 norm_q of
             [qw, qx, qy, qz] \<Rightarrow>
               new_matrix s2
                 [[qw * qw + qx * qx - qy * qy - qz * qz, 2 * qx * qy - 2 * qw * qz,
                   2 * qx * qz + 2 * qw * qy],
                  [2 * qx * qy + 2 * qw * qz, qw * qw - qx * qx + qy * qy - qz * qz,
                   2 * qy * qz - 2 * qw * qx],
                  [2 * qx * qz - 2 * qw * qy, 2 * qy * qz + 2 * qw * qx,
                   qw * qw - qx * qx - qy * qy + qz * qz]]
           | xs \<Rightarrow>
               (s2, Inl (ValueError (if length xs < 4 then ''not enough values to unpack''
                                     else ''too many values to unpack''))))"
      by (simp add: allocates_new_matrix allocates_error unchanged_refl split: list.splits)
  qed
qed

lemma allocates_euler_to_rotation_matrix_s: "allocates s (euler_to_rotation_matrix_s s e)"
  unfolding euler_to_rotation_matrix_s_def
  by (rule allocates_bind) (simp_all add: unchanged_refl allocates_new_matrix)

lemma allocates_axis_angle_to_quaternion_s:
  "allocates s (axis_angle_to_quaternion_s s axis angle)"
  unfolding axis_angle_to_quaternion_s_def by (rule allocates_numbers)

lemma allocates_axis_angle_to_rotation_matrix_s:
  "allocates s (axis_angle_to_rotation_matrix_s s axis angle)"
  unfolding axis_angle_to_rotation_matrix_s_def
  by (rule allocates_bind)
    (simp_all add: allocates_unchanged[OF allocates_axis_angle_to_quaternion_s]
      allocates_quaternion_to_rotation_matrix_s)

lemma returns_list_fresh:
  assumes "allocates s res"
  shows "unchanged s (fst (returns_list res))
       \<and> (\<forall>p. snd (returns_list res) = Inr (Ref p) \<longrightarrow> fresh s (fst (returns_list res)) p)"
proof (cases res)
  case (Pair s1 r)
  with assms show ?thesis
    by (cases r) (simp_all add: returns_list_def bind_s_def allocates_def)
qed

lemma returns_float_fresh:
  "unchanged s (fst (returns_float (s, r)))
   \<and> (\<forall>p. snd (returns_float (s, r)) = Inr (Ref p) \<longrightarrow> fresh s (fst (returns_float (s, r))) p)"
  by (cases r) (simp_all add: returns_float_def bind_s_def unchanged_refl)

text \<open>
  Claim C9. Every operation of the library is pure: whatever the store and the call, every
  list of the store before the call (the argument vectors, the argument matrices and their
  rows among them) is at its address with the same elements after the call, also when the
  call raises; and a list that is returned is a new object, and so is each of its rows when
  it is a matrix, so that the result shares no list with any argument.
\<close>

theorem operations_leave_arguments_unchanged:
  "unchanged s (fst (run_s s c))
   \<and> (\<forall>p. snd (run_s s c) = Inr (Ref p) \<longrightarrow> fresh s (fst (run_s s c)) p)"
proof (cases c)
  case (Magnitude v)
  then show ?thesis by (simp add: magnitude_s_def returns_float_fresh)
next
  case (Dot u v)
  then show ?thesis by (simp add: dot_s_def returns_float_fresh)
next
  case (Add u v)
  then show ?thesis by (simp add: add_s_def returns_list_fresh allocates_numbers)
next
  case (Sub u v)
  then show ?thesis by (simp add: sub_s_def returns_list_fresh allocates_numbers)
next
  case (Eldiv u v)
  then show ?thesis by (simp add: eldiv_s_def returns_list_fresh allocates_numbers)
next
  case (Elmult u v)
  then show ?thesis by (simp add: elmult_s_def returns_list_fresh allocates_numbers)
next
  case (Normalize v)
  then show ?thesis by (simp add: returns_list_fresh allocates_normalize_s)
next
  case (Cross u v)
  then show ?thesis by (simp add: cross_s_def returns_list_fresh allocates_numbers)
next
  case (Mult u x)
  then show ?thesis by (simp add: returns_list_fresh allocates_mult_s)
next
  case (Div u x)
  then show ?thesis by (simp add: returns_list_fresh allocates_div_s)
next
  case (QuaternionToRotationMatrix q)
  then show ?thesis by (simp add: returns_list_fresh allocates_quaternion_to_rotation_matrix_s)
next
  case (MatrixConstantMult m x)
  then show ?thesis
    by (simp add: matrix_constant_mult_s_def returns_list_fresh allocates_rows allocates_mult_s)
next
  case (MatrixVectorMult m v)
  then show ?thesis by (simp add: matrix_vector_mult_s_def returns_list_fresh allocates_numbers)
next
  case (VectorMatrixMult v m)
  then show ?thesis by (simp add: returns_list_fresh allocates_vector_matrix_mult_s)
next
  case (MatrixMult a b)
  then show ?thesis
    by (simp add: matrix_mult_s_def returns_list_fresh allocates_rows
        allocates_vector_matrix_mult_s)
next
  case (Transpose a)
  then show ?thesis by (simp add: transpose_s_def returns_list_fresh allocates_new_matrix)
next
  case (EulerToRotationMatrix e)
  then show ?thesis by (simp add: returns_list_fresh allocates_euler_to_rotation_matrix_s)
next
  case (RotationMatrixToEuler m)
  then show ?thesis by (simp add: returns_list_fresh allocates_rotation_matrix_to_euler_s)
next
  case (AxisAngleToQuaternion axis angle)
  then show ?thesis by (simp add: returns_list_fresh allocates_axis_angle_to_quaternion_s)
next
  case (AxisAngleToRotationMatrix axis angle)
  then show ?thesis by (simp add: returns_list_fresh allocates_axis_angle_to_rotation_matrix_s)
next
  case (ReshapeTuple a new_shape)
  then show ?thesis by (simp add: returns_list_fresh allocates_reshape_tuple_s)
next
  case (ReshapeInt a new_shape)
  then show ?thesis by (simp add: returns_list_fresh allocates_reshape_int_s)
qed

theorem operations_leave_arguments_unchanged_witness:
  "run_s [Numbers [1, 2], Numbers [3, 4], Rows [0, 1]] (MatrixConstantMult 2 2)
     = ([Numbers [1, 2], Numbers [3, 4], Rows [0, 1], Numbers [2, 4], Numbers [6, 8], Rows [3, 4]],
        Inr (Ref 5))
   \<and> unchanged [Numbers [1, 2], Numbers [3, 4], Rows [0, 1]]
        [Numbers [1, 2], Numbers [3, 4], Rows [0, 1], Numbers [2, 4], Numbers [6, 8], Rows [3, 4]]
   \<and> fresh [Numbers [1, 2], Numbers [3, 4], Rows [0, 1]]
        [Numbers [1, 2], Numbers [3, 4], Rows [0, 1], Numbers [2, 4], Numbers [6, 8], Rows [3, 4]]
        5"
proof -
  have up: "[0..<2] = [0, 1]"
    by (simp add: upt_rec)
  have run: "run_s [Numbers [1, 2], Numbers [3, 4], Rows [0, 1]] (MatrixConstantMult 2 2)
     = ([Numbers [1, 2], Numbers [3, 4], Rows [0, 1], Numbers [2, 4], Numbers [6, 8], Rows [3, 4]],
        Inr (Ref 5))"
    by (simp add: matrix_constant_mult_s_def rows_at_def mult_s_def mult_def vector_at_def
        bind_s_def new_def item_def lift2_def bind_def returns_list_def up)
  show ?thesis
    using operations_leave_arguments_unchanged[of "[Numbers [1, 2], Numbers [3, 4], Rows [0, 1]]"
        "MatrixConstantMult 2 2"]
    unfolding run by simp
qed

section \<open>The operations on the store, run on examples\<close>

text \<open>
  The loops that append to a list they made and the assignments by index compute on the
  store what the functions on values compute.
\<close>

lemmas store_defs = bind_s_def new_def append_number_def append_row_def set_number_def
  vector_at_def rows_at_def matrix_at_def returns_list_def returns_float_def

lemma reshape_tuple_s_example:
  "run_s [Numbers [1, 2, 3, 4, 5, 6]] (ReshapeTuple 0 (2, 3))
   = ([Numbers [1, 2, 3, 4, 5, 6], Rows [2, 3], Numbers [1, 2, 3], Numbers [4, 5, 6]],
      Inr (Ref 1))"
  by (simp add: reshape_tuple_s_def numeral_2_eq_2 numeral_3_eq_3 store_defs item_def)

lemma vector_matrix_mult_s_example:
  "run_s [Numbers [1, 2], Numbers [1, 0, 5], Numbers [0, 1, 7], Rows [1, 2]]
     (VectorMatrixMult 0 3)
   = ([Numbers [1, 2], Numbers [1, 0, 5], Numbers [0, 1, 7], Rows [1, 2], Numbers [1, 2, 19]],
      Inr (Ref 4))"
proof -
  have up: "[0..<3] = [0, 1, 2]" "[0..<2] = [0, 1]"
    by (simp_all add: upt_rec)
  show ?thesis
    by (simp add: vector_matrix_mult_s_def Let_def store_defs item_def item2_def sum_gen_def
        lift2_def bind_def up)
qed

lemma rotation_matrix_to_euler_s_example:
  "run_s [Numbers [0, 0, 1], Numbers [0, 1, 0], Numbers [- 1, 0, 0], Rows [0, 1, 2]]
     (RotationMatrixToEuler 3)
   = ([Numbers [0, 0, 1], Numbers [0, 1, 0], Numbers [- 1, 0, 0], Rows [0, 1, 2],
       Numbers [0, pi / 2, 0]],
      Inr (Ref 4))"
  by (simp add: rotation_matrix_to_euler_s_def store_defs item_def item2_def lift1_def lift2_def
      bind_def fabs_def MATRIX_TO_EULER_TOLERANCE_def atan2_def)

lemma transpose_s_example:
  "run_s [Numbers [1, 2, 3], Numbers [4, 5, 6], Rows [0, 1]] (Transpose 2)
   = ([Numbers [1, 2, 3], Numbers [4, 5, 6], Rows [0, 1],
       Numbers [1, 4], Numbers [2, 5], Numbers [3, 6], Rows [3, 4, 5]],
      Inr (Ref 6))"
proof -
  have "zip_star [[1, 2, 3], [4, 5, 6 :: real]] = [[1, 4], [2, 5], [3, 6]]"
    by (simp add: zip_star.simps[of "_ # _"] zip_star.simps[of "[]"])
  then show ?thesis
    by (simp add: transpose_s_def new_matrix_def store_defs)
qed

section \<open>The operations on the store compute the functions on values\<close>

lemma unchanged_nth: "unchanged s s' \<Longrightarrow> a < length s \<Longrightarrow> s' ! a = s ! a"
  unfolding unchanged_def by (metis nth_take)

lemma unchanged_vector_at: "unchanged s s' \<Longrightarrow> a < length s \<Longrightarrow> vector_at s' a = vector_at s a"
  by (simp add: vector_at_def unchanged_nth)

lemma unchanged_rows_at: "unchanged s s' \<Longrightarrow> a < length s \<Longrightarrow> rows_at s' a = rows_at s a"
  by (simp add: rows_at_def unchanged_nth)

lemma unchanged_is_vector: "unchanged s s' \<Longrightarrow> is_vector s a \<Longrightarrow> is_vector s' a"
  using unchanged_length[of s s'] by (auto simp: is_vector_def unchanged_nth)

lemma is_matrix_rows: "is_matrix s a \<Longrightarrow> r \<in> set (rows_at s a) \<Longrightarrow> is_vector s r"
  by (auto simp: is_matrix_def rows_at_def list_all_iff split: object.splits)

lemma unchanged_matrix_at:
  assumes "unchanged s s'" and "is_matrix s a"
  shows "matrix_at s' a = matrix_at s a"
proof -
  have a: "a < length s" using assms(2) by (simp add: is_matrix_def)
  have "\<And>r. r \<in> set (rows_at s a) \<Longrightarrow> vector_at s' r = vector_at s r"
    using is_matrix_rows[OF assms(2)] assms(1) by (simp add: unchanged_vector_at is_vector_def)
  then show ?thesis
    by (simp add: matrix_at_def unchanged_rows_at[OF assms(1) a])
qed

lemma unchanged_is_matrix:
  assumes "unchanged s s'" and "is_matrix s a"
  shows "is_matrix s' a"
proof -
  have a: "a < length s" using assms(2) by (simp add: is_matrix_def)
  have "list_all (is_vector s') (rows_at s a)"
    using is_matrix_rows[OF assms(2)] unchanged_is_vector[OF assms(1)]
    by (simp add: list_all_iff)
  then show ?thesis
    using assms a unchanged_length[OF assms(1)] unchanged_nth[OF assms(1) a]
    by (auto simp: is_matrix_def rows_at_def split: object.splits)
qed

lemma vector_result_numbers:
  "vector_result (bind_s (s, r) (\<lambda>s xs. new s (Numbers xs))) r"
  by (cases r) (simp_all add: vector_result_def bind_s_def new_def)

lemma new_matrix_eq:
  "new_matrix s rows =
     (s @ map Numbers rows @ [Rows [length s..<length s + length rows]],
      Inr (length s + length rows))"
  by (simp add: new_matrix_def new_rows_eq bind_s_Inr new_def)

lemma vector_at_appended:
  "i < length rows \<Longrightarrow> vector_at (s @ map Numbers rows @ t) (length s + i) = rows ! i"
  by (simp add: vector_at_def nth_append)

lemma matrix_result_new_matrix: "matrix_result (new_matrix s rows) (Inr rows)"
proof -
  let ?s' = "s @ map Numbers rows @ [Rows [length s..<length s + length rows]]"
  have at: "?s' ! (length s + length rows) = Rows [length s..<length s + length rows]"
    by (simp add: nth_append)
  have "map (vector_at ?s') [length s..<length s + length rows] = rows"
    by (rule nth_equalityI) (simp_all add: vector_at_appended)
  moreover have "list_all (is_vector ?s') [length s..<length s + length rows]"
    by (auto simp: list_all_iff is_vector_def nth_append)
  ultimately show ?thesis
    using at by (simp add: matrix_result_def new_matrix_eq is_matrix_def matrix_at_def rows_at_def)
qed

lemma update_last: "(s @ [a])[length s := b] = s @ [b]"
  by simp

lemma append_number_last:
  "append_number (s @ [Numbers acc]) (length s) x = (s @ [Numbers (acc @ [x])], Inr ())"
  by (simp add: append_number_def vector_at_def)

lemma vector_at_before: "a < length s \<Longrightarrow> vector_at (s @ t) a = vector_at s a"
  by (simp add: vector_at_def nth_append)

lemma matrix_at_before: "is_matrix s a \<Longrightarrow> matrix_at (s @ t) a = matrix_at s a"
  using unchanged_append by (rule unchanged_matrix_at)

lemma vector_matrix_mult_loop_s_computes:
  assumes "v < length s0" and "is_matrix s0 m"
  shows "case vector_matrix_mult_loop (vector_at s0 v) (matrix_at s0 m) rows cs acc of
           Inl e \<Rightarrow>
             snd (vector_matrix_mult_loop_s (s0 @ [Numbers acc]) v m rows cs (length s0)) = Inl e
         | Inr xs \<Rightarrow>
             vector_matrix_mult_loop_s (s0 @ [Numbers acc]) v m rows cs (length s0)
             = (s0 @ [Numbers xs], Inr (length s0))"
proof (induction cs arbitrary: acc)
  case Nil
  show ?case by simp
next
  case (Cons c cs)
  let ?sum = "sum_gen (\<lambda>r. lift2 (*) (item (vector_at s0 v) r) (item2 (matrix_at s0 m) r c))
                [0..<rows]"
  show ?case
  proof (cases ?sum)
    case (Inl e)
    have "snd (vector_matrix_mult_loop_s (s0 @ [Numbers acc]) v m rows (c # cs) (length s0))
          = Inl e"
      using Inl assms by (simp add: vector_at_before matrix_at_before bind_s_Inl)
    moreover have "vector_matrix_mult_loop (vector_at s0 v) (matrix_at s0 m) rows (c # cs) acc
          = Inl e"
      using Inl by (simp add: bind_Inl)
    ultimately show ?thesis
      by simp
  next
    case (Inr x)
    have s_eq: "vector_matrix_mult_loop_s (s0 @ [Numbers acc]) v m rows (c # cs) (length s0)
          = vector_matrix_mult_loop_s (s0 @ [Numbers (acc @ [x])]) v m rows cs (length s0)"
      using Inr assms
      by (simp add: vector_at_before matrix_at_before bind_s_Inr append_number_last)
    have p_eq: "vector_matrix_mult_loop (vector_at s0 v) (matrix_at s0 m) rows (c # cs) acc
          = vector_matrix_mult_loop (vector_at s0 v) (matrix_at s0 m) rows cs (acc @ [x])"
      using Inr by (simp add: bind_Inr)
    show ?thesis
      unfolding s_eq p_eq by (rule Cons.IH)
  qed
qed

lemma vector_result_vector_matrix_mult_s:
  assumes "is_vector s v" and "is_matrix s m"
  shows "vector_result (vector_matrix_mult_s s v m)
           (vector_matrix_mult (vector_at s v) (matrix_at s m))"
proof (cases "length (vector_at s v) \<noteq> length (rows_at s m)")
  case True
  then show ?thesis
    by (simp add: vector_matrix_mult_s_def vector_matrix_mult_def Let_def matrix_at_def
        vector_result_def)
next
  case False
  have v: "v < length s"
    using assms(1) by (simp add: is_vector_def)
  show ?thesis
  proof (cases "item (matrix_at s m) 0")
    case (Inl e)
    with False show ?thesis
      by (simp add: vector_matrix_mult_s_def vector_matrix_mult_def Let_def matrix_at_def
          vector_result_def bind_s_Inl bind_Inl)
  next
    case (Inr m0)
    from vector_matrix_mult_loop_s_computes[OF v assms(2),
        where rows = "length (rows_at s m)" and cs = "[0..<length m0]" and acc = "[]"]
    show ?thesis
      using False Inr
      by (auto simp: vector_matrix_mult_s_def vector_matrix_mult_def Let_def matrix_at_def
          vector_result_def bind_s_Inr bind_Inr new_def split: sum.splits)
  qed
qed

text \<open>A comprehension of calls, each of which returns the list that a function on values
  computes from the argument as it is in the store at the start.\<close>

lemma collect_s_computes:
  assumes "\<And>s1 x. unchanged s s1 \<Longrightarrow> x \<in> set xs \<Longrightarrow>
             allocates s1 (f s1 x) \<and> vector_result (f s1 x) (g x)"
    and "unchanged s s1"
  shows "case collect g xs of
           Inl e \<Rightarrow> snd (collect_s f s1 xs) = Inl e
         | Inr yss \<Rightarrow>
             (case snd (collect_s f s1 xs) of Inl _ \<Rightarrow> False
              | Inr ps \<Rightarrow> unchanged s1 (fst (collect_s f s1 xs))
                          \<and> list_all (is_vector (fst (collect_s f s1 xs))) ps
                          \<and> map (vector_at (fst (collect_s f s1 xs))) ps = yss)"
  using assms
proof (induction xs arbitrary: s1)
  case Nil
  show ?case by (simp add: unchanged_refl)
next
  case (Cons x xs)
  obtain s2 r2 where f: "f s1 x = (s2, r2)"
    by (cases "f s1 x")
  from Cons.prems(1)[OF Cons.prems(2), of x] f
  have a: "allocates s1 (s2, r2)" and vr: "vector_result (s2, r2) (g x)"
    by simp_all
  have u12: "unchanged s1 s2"
    using a by (simp add: allocates_def)
  have u2: "unchanged s s2"
    using Cons.prems(2) u12 by (rule unchanged_trans)
  show ?case
  proof (cases "g x")
    case (Inl e)
    with vr f show ?thesis
      by (simp add: vector_result_def bind_s_Inl)
  next
    case (Inr ys)
    with vr obtain p where r2: "r2 = Inr p" and p: "p < length s2" "s2 ! p = Numbers ys"
      by (auto simp: vector_result_def split: sum.splits)
    let ?rest = "collect_s f s2 xs"
    have IH: "case collect g xs of
           Inl e \<Rightarrow> snd ?rest = Inl e
         | Inr yss \<Rightarrow>
             (case snd ?rest of Inl _ \<Rightarrow> False
              | Inr ps \<Rightarrow> unchanged s2 (fst ?rest)
                          \<and> list_all (is_vector (fst ?rest)) ps
                          \<and> map (vector_at (fst ?rest)) ps = yss)"
      using Cons.prems(1) u2 by (intro Cons.IH) simp_all
    show ?thesis
    proof (cases "collect g xs")
      case (Inl e)
      with IH Inr f r2 show ?thesis
        by (cases ?rest) (simp add: bind_s_def)
    next
      case yss: (Inr yss)
      obtain s3 r3 where rest: "?rest = (s3, r3)"
        by (cases ?rest)
      with IH yss obtain ps where r3: "r3 = Inr ps" and u23: "unchanged s2 s3"
        and vs: "list_all (is_vector s3) ps" and m: "map (vector_at s3) ps = yss"
        by (auto split: sum.splits)
      have "s3 ! p = Numbers ys"
        using unchanged_nth[OF u23 p(1)] p(2) by simp
      moreover have "p < length s3"
        using p(1) unchanged_length[OF u23] by simp
      ultimately have "is_vector s3 p" and "vector_at s3 p = ys"
        by (simp_all add: is_vector_def vector_at_def)
      moreover have "unchanged s1 s3"
        using u12 u23 by (rule unchanged_trans)
      ultimately show ?thesis
        using Inr yss f r2 rest r3 vs m by (simp add: bind_s_Inr)
    qed
  qed
qed

lemma matrix_result_rows:
  assumes "\<And>s1 x. unchanged s s1 \<Longrightarrow> x \<in> set xs \<Longrightarrow>
             allocates s1 (f s1 x) \<and> vector_result (f s1 x) (g x)"
  shows "matrix_result (bind_s (collect_s f s xs) (\<lambda>s ps. new s (Rows ps))) (collect g xs)"
proof -
  note c = collect_s_computes[of s xs f g s, OF assms unchanged_refl]
  obtain s3 r3 where rest: "collect_s f s xs = (s3, r3)"
    by (cases "collect_s f s xs")
  show ?thesis
  proof (cases "collect g xs")
    case (Inl e)
    with c rest show ?thesis
      by (simp add: matrix_result_def bind_s_Inl)
  next
    case (Inr yss)
    with c rest obtain ps where r3: "r3 = Inr ps"
      and vs: "list_all (is_vector s3) ps" and m: "map (vector_at s3) ps = yss"
      by (auto split: sum.splits)
    have "list_all (is_vector (s3 @ [Rows ps])) ps"
      using vs unchanged_is_vector[OF unchanged_append[of s3 "[Rows ps]"]]
      by (simp add: list_all_iff)
    moreover have "map (vector_at (s3 @ [Rows ps])) ps = yss"
    proof -
      have "\<And>p. p \<in> set ps \<Longrightarrow> vector_at (s3 @ [Rows ps]) p = vector_at s3 p"
        using vs by (simp add: list_all_iff is_vector_def vector_at_before)
      then show ?thesis using m by (simp cong: map_cong)
    qed
    ultimately show ?thesis
      using Inr rest r3
      by (simp add: matrix_result_def bind_s_Inr new_def is_matrix_def matrix_at_def rows_at_def)
  qed
qed

lemma vector_result_bind:
  assumes "\<And>x. r = Inr x \<Longrightarrow> vector_result (f s x) (g x)"
  shows "vector_result (bind_s (s, r) f) (bind r g)"
  using assms by (cases r) (simp_all add: bind_s_def bind_def vector_result_def)

lemma vector_result_set:
  assumes "i < length xs" and "vector_result (f (s @ [Numbers (xs[i := x])]) ()) r"
  shows "vector_result (bind_s (set_number (s @ [Numbers xs]) (length s) i x) f) r"
  using assms by (simp add: set_number_def vector_at_def bind_s_def)

lemma vector_result_if:
  assumes "c \<Longrightarrow> vector_result a r" and "\<not> c \<Longrightarrow> vector_result b r'"
  shows "vector_result (if c then a else b) (if c then r else r')"
  using assms by simp

lemma vector_result_return: "vector_result (s @ [Numbers xs], Inr (length s)) (Inr xs)"
  by (simp add: vector_result_def)

lemma vector_at_last: "vector_at (s @ [Numbers xs]) (length s) = xs"
  by (simp add: vector_at_def)

lemma vector_result_rotation_matrix_to_euler_s:
  assumes "is_matrix s m"
  shows "vector_result (rotation_matrix_to_euler_s s m) (rotation_matrix_to_euler (matrix_at s m))"
  unfolding rotation_matrix_to_euler_s_def rotation_matrix_to_euler_def new_def bind_s_Inr Let_def
  by ((rule vector_result_bind vector_result_set vector_result_if vector_result_return
        | simp add: matrix_at_before[OF assms] vector_at_last)+)

lemma reshape_row_s_computes:
  assumes "a < length t"
  shows "case reshape_row (vector_at t a) k index acc of
           Inl e \<Rightarrow> snd (reshape_row_s (t @ [Numbers acc]) a k index (length t)) = Inl e
         | Inr (row, index') \<Rightarrow>
             reshape_row_s (t @ [Numbers acc]) a k index (length t)
             = (t @ [Numbers row], Inr index')"
proof (induction k arbitrary: index acc)
  case 0
  show ?case by simp
next
  case (Suc k)
  show ?case
  proof (cases "item (vector_at t a) index")
    case (Inl e)
    have "snd (reshape_row_s (t @ [Numbers acc]) a (Suc k) index (length t)) = Inl e"
      using Inl assms by (simp add: vector_at_before bind_s_Inl)
    moreover have "reshape_row (vector_at t a) (Suc k) index acc = Inl e"
      using Inl by (simp add: bind_Inl)
    ultimately show ?thesis by simp
  next
    case (Inr x)
    have s_eq: "reshape_row_s (t @ [Numbers acc]) a (Suc k) index (length t)
          = reshape_row_s (t @ [Numbers (acc @ [x])]) a k (index + 1) (length t)"
      using Inr assms by (simp add: vector_at_before bind_s_Inr append_number_last)
    have p_eq: "reshape_row (vector_at t a) (Suc k) index acc
          = reshape_row (vector_at t a) k (index + 1) (acc @ [x])"
      using Inr by (simp add: bind_Inr)
    show ?thesis
      unfolding s_eq p_eq by (rule Suc.IH)
  qed
qed

lemma reshaping_step:
  "fst (append_row (reshaping s0 rows_done @ [Numbers row]) (length s0)
         (length (reshaping s0 rows_done)))
   = reshaping s0 (rows_done @ [row])"
  by (simp add: reshaping_def append_row_def rows_at_def nth_append list_update_append)

lemma reshape_rows_s_computes:
  assumes "a < length s0"
  shows "case reshape_rows (vector_at s0 a) k cols index rows_done of
           Inl e \<Rightarrow> snd (reshape_rows_s (reshaping s0 rows_done) a k cols index (length s0)) = Inl e
         | Inr rows \<Rightarrow>
             reshape_rows_s (reshaping s0 rows_done) a k cols index (length s0)
             = (reshaping s0 rows, Inr (length s0))"
proof (induction k arbitrary: index rows_done)
  case 0
  show ?case by simp
next
  case (Suc k)
  let ?t = "reshaping s0 rows_done"
  have a: "a < length ?t"
    using assms by (simp add: reshaping_def)
  have va: "vector_at ?t a = vector_at s0 a"
    using assms by (simp add: reshaping_def vector_at_before)
  note row = reshape_row_s_computes[OF a, where k = cols and index = index and acc = "[]",
      unfolded va]
  show ?case
  proof (cases "reshape_row (vector_at s0 a) cols index []")
    case (Inl e)
    with row have "snd (reshape_row_s (?t @ [Numbers []]) a cols index (length ?t)) = Inl e"
      by simp
    then have "snd (reshape_rows_s ?t a (Suc k) cols index (length s0)) = Inl e"
      by (cases "reshape_row_s (?t @ [Numbers []]) a cols index (length ?t)")
        (simp add: new_def bind_s_Inr bind_s_Inl)
    moreover have "reshape_rows (vector_at s0 a) (Suc k) cols index rows_done = Inl e"
      using Inl by (simp add: bind_Inl)
    ultimately show ?thesis by simp
  next
    case (Inr pair)
    obtain r index' where pair: "pair = (r, index')"
      by (cases pair)
    with row Inr have "reshape_row_s (?t @ [Numbers []]) a cols index (length ?t)
          = (?t @ [Numbers r], Inr index')"
      by simp
    then have s_eq: "reshape_rows_s ?t a (Suc k) cols index (length s0)
          = reshape_rows_s (reshaping s0 (rows_done @ [r])) a k cols index' (length s0)"
      using reshaping_step[of s0 rows_done r]
      by (simp add: new_def bind_s_Inr append_row_def)
    have p_eq: "reshape_rows (vector_at s0 a) (Suc k) cols index rows_done
          = reshape_rows (vector_at s0 a) k cols index' (rows_done @ [r])"
      using Inr pair by (simp add: bind_Inr)
    show ?thesis
      unfolding s_eq p_eq by (rule Suc.IH)
  qed
qed

lemma matrix_result_reshaping:
  "matrix_result (reshaping s0 rows, Inr (length s0)) (Inr rows)"
proof -
  let ?s' = "reshaping s0 rows"
  let ?ps = "[Suc (length s0)..<Suc (length s0) + length rows]"
  have at: "?s' ! length s0 = Rows ?ps"
    by (simp add: reshaping_def)
  have v: "vector_at ?s' (Suc (length s0 + i)) = rows ! i" if "i < length rows" for i
    using that by (simp add: reshaping_def vector_at_def nth_append)
  have "map (vector_at ?s') ?ps = rows"
    by (rule nth_equalityI) (simp_all add: v del: upt_Suc)
  moreover have "list_all (is_vector ?s') ?ps"
    by (auto simp: list_all_iff is_vector_def reshaping_def nth_append simp del: upt_Suc)
  moreover have "length s0 < length ?s'"
    by (simp add: reshaping_def)
  ultimately show ?thesis
    using at by (simp add: matrix_result_def is_matrix_def matrix_at_def rows_at_def del: upt_Suc)
qed

lemma matrix_result_reshape_tuple_s:
  assumes "is_vector s a"
  shows "matrix_result (reshape_tuple_s s a new_shape) (reshape_tuple (vector_at s a) new_shape)"
proof -
  have a: "a < length s"
    using assms by (simp add: is_vector_def)
  have start: "reshaping s [] = s @ [Rows []]"
    by (simp add: reshaping_def)
  note rows = reshape_rows_s_computes[OF a, where k = "nat (fst new_shape)"
      and cols = "nat (snd new_shape)" and index = 0 and rows_done = "[]", unfolded start]
  show ?thesis
  proof (cases "reshape_tuple (vector_at s a) new_shape")
    case (Inl e)
    with rows show ?thesis
      by (simp add: reshape_tuple_s_def reshape_tuple_def new_def bind_s_Inr matrix_result_def)
  next
    case (Inr rs)
    with rows matrix_result_reshaping[of s rs] show ?thesis
      by (simp add: reshape_tuple_s_def reshape_tuple_def new_def bind_s_Inr)
  qed
qed

lemma vector_result_reshape_int_s:
  assumes "is_matrix s a"
  shows "vector_result (reshape_int_s s a new_shape)
           (Inr (reshape_int (matrix_at s a) new_shape))"
  by (simp add: reshape_int_s_def reshape_int_def new_def bind_s_Inr Let_def vector_result_def
      vector_at_def nth_append matrix_at_before[OF assms])

lemma collect_map: "collect f (map h xs) = collect (\<lambda>x. f (h x)) xs"
  by (induction xs) (simp_all split: sum.splits)

lemma matrix_result_bind_new_matrix:
  "matrix_result (bind_s (s, r) (\<lambda>s rows. new_matrix s rows)) r"
  by (cases r) (simp_all add: bind_s_def matrix_result_new_matrix, simp add: matrix_result_def)

lemma vector_result_normalize_s:
  "vector_result (normalize_s s v) (normalize_py (vector_at s v))"
  unfolding normalize_s_def normalize_py_def magnitude_s_def
  by (simp add: magnitude_eq bind_s_Inr bind_Inr vector_result_numbers)

lemma matrix_result_quaternion_to_rotation_matrix_s:
  "matrix_result (quaternion_to_rotation_matrix_s s q)
     (quaternion_to_rotation_matrix (vector_at s q))"
proof (cases "div_py (vector_at s q) (sqrt (\<Sum>x\<leftarrow>vector_at s q. x * x))")
  case (Inl e)
  then show ?thesis
    by (simp add: quaternion_to_rotation_matrix_s_def quaternion_to_rotation_matrix_def
        magnitude_s_def magnitude_eq div_s_def bind_s_def bind_def matrix_result_def)
next
  case (Inr norm_q)
  then show ?thesis
    by (simp add: quaternion_to_rotation_matrix_s_def quaternion_to_rotation_matrix_def
        magnitude_s_def magnitude_eq div_s_def bind_s_def bind_def new_def vector_at_def
        matrix_result_new_matrix split: list.splits)
      (simp add: matrix_result_def)
qed

lemma matrix_result_axis_angle_to_rotation_matrix_s:
  "matrix_result (axis_angle_to_rotation_matrix_s s axis angle)
     (axis_angle_to_rotation_matrix (vector_at s axis) angle)"
proof (cases "axis_angle_to_quaternion (vector_at s axis) angle")
  case (Inl e)
  then show ?thesis
    by (simp add: axis_angle_to_rotation_matrix_s_def axis_angle_to_rotation_matrix_def
        axis_angle_to_quaternion_s_def bind_s_def bind_def matrix_result_def)
next
  case (Inr q)
  with matrix_result_quaternion_to_rotation_matrix_s[of "s @ [Numbers q]" "length s"]
  show ?thesis
    by (simp add: axis_angle_to_rotation_matrix_s_def axis_angle_to_rotation_matrix_def
        axis_angle_to_quaternion_s_def bind_s_def bind_def new_def vector_at_last)
qed

lemma vector_result_matrix_vector_mult_s:
  "vector_result (matrix_vector_mult_s s m v)
     (matrix_vector_mult (matrix_at s m) (vector_at s v))"
  unfolding matrix_vector_mult_s_def matrix_vector_mult_def matrix_at_def collect_map
  by (rule vector_result_numbers)

lemma matrix_result_matrix_constant_mult_s:
  assumes "is_matrix s m"
  shows "matrix_result (matrix_constant_mult_s s m c) (matrix_constant_mult (matrix_at s m) c)"
proof -
  have "matrix_result
          (bind_s (collect_s (\<lambda>s row_m. mult_s s row_m c) s (rows_at s m))
             (\<lambda>s ps. new s (Rows ps)))
          (collect (\<lambda>row_m. mult (vector_at s row_m) c) (rows_at s m))"
  proof (rule matrix_result_rows)
    fix s1 x
    assume u: "unchanged s s1" and x: "x \<in> set (rows_at s m)"
    have "x < length s"
      using is_matrix_rows[OF assms x] by (simp add: is_vector_def)
    then have "vector_at s1 x = vector_at s x"
      using u by (simp add: unchanged_vector_at)
    then show "allocates s1 (mult_s s1 x c)
               \<and> vector_result (mult_s s1 x c) (mult (vector_at s x) c)"
      using vector_result_numbers[of s1 "mult (vector_at s1 x) c"] allocates_mult_s[of s1 x c]
      by (simp add: mult_s_def)
  qed
  then show ?thesis
    by (simp add: matrix_constant_mult_s_def matrix_constant_mult_def matrix_at_def collect_map)
qed

lemma matrix_result_matrix_mult_s:
  assumes "is_matrix s a" and "is_matrix s b"
  shows "matrix_result (matrix_mult_s s a b) (matrix_mult (matrix_at s a) (matrix_at s b))"
proof -
  have "matrix_result
          (bind_s (collect_s (\<lambda>s row_a. vector_matrix_mult_s s row_a b) s (rows_at s a))
             (\<lambda>s ps. new s (Rows ps)))
          (collect (\<lambda>row_a. vector_matrix_mult (vector_at s row_a) (matrix_at s b)) (rows_at s a))"
  proof (rule matrix_result_rows)
    fix s1 x
    assume u: "unchanged s s1" and x: "x \<in> set (rows_at s a)"
    have vx: "is_vector s x"
      using assms(1) x by (rule is_matrix_rows)
    then have "vector_at s1 x = vector_at s x"
      using u by (simp add: unchanged_vector_at is_vector_def)
    moreover have "matrix_at s1 b = matrix_at s b"
      using u assms(2) by (rule unchanged_matrix_at)
    moreover have "vector_result (vector_matrix_mult_s s1 x b)
                     (vector_matrix_mult (vector_at s1 x) (matrix_at s1 b))"
      using unchanged_is_vector[OF u vx] unchanged_is_matrix[OF u assms(2)]
      by (rule vector_result_vector_matrix_mult_s)
    ultimately show "allocates s1 (vector_matrix_mult_s s1 x b)
               \<and> vector_result (vector_matrix_mult_s s1 x b)
                    (vector_matrix_mult (vector_at s x) (matrix_at s b))"
      by (simp add: allocates_vector_matrix_mult_s)
  qed
  then show ?thesis
    by (simp add: matrix_mult_s_def matrix_mult_def matrix_at_def collect_map)
qed

lemma returns_list_vector:
  assumes "vector_result res r"
  shows "map_sum id (value_of (fst (returns_list res))) (snd (returns_list res)) = lift1 Vector r"
proof (cases res)
  case (Pair s1 r1)
  with assms show ?thesis
    by (cases r; cases r1)
      (simp_all add: vector_result_def returns_list_def bind_s_def lift1_def bind_def)
qed

lemma returns_list_matrix:
  assumes "matrix_result res r"
  shows "map_sum id (value_of (fst (returns_list res))) (snd (returns_list res)) = lift1 Matrix r"
proof (cases res)
  case (Pair s1 r1)
  with assms show ?thesis
    by (cases r; cases r1)
      (auto simp: matrix_result_def returns_list_def bind_s_def lift1_def bind_def is_matrix_def
        matrix_at_def rows_at_def split: object.splits)
qed

lemma returns_float_number:
  "map_sum id (value_of (fst (returns_float (s, r)))) (snd (returns_float (s, r)))
   = lift1 Number r"
  by (cases r) (simp_all add: returns_float_def bind_s_def lift1_def bind_def)

text \<open>
  Every call on a store with well-formed arguments raises what the function on the values
  of the arguments raises, or returns a number or a list that holds what it returns.
\<close>

theorem run_s_computes_run:
  assumes "well_formed s c"
  shows "map_sum id (value_of (fst (run_s s c))) (snd (run_s s c))
         = run (map_call (vector_at s) (matrix_at s) c)"
proof (cases c)
  case (Magnitude v)
  then show ?thesis by (simp add: magnitude_s_def returns_float_number)
next
  case (Dot u v)
  then show ?thesis by (simp add: dot_s_def returns_float_number)
next
  case (Add u v)
  then show ?thesis by (simp add: add_s_def returns_list_vector vector_result_numbers)
next
  case (Sub u v)
  then show ?thesis by (simp add: sub_s_def returns_list_vector vector_result_numbers)
next
  case (Eldiv u v)
  then show ?thesis by (simp add: eldiv_s_def returns_list_vector vector_result_numbers)
next
  case (Elmult u v)
  then show ?thesis by (simp add: elmult_s_def returns_list_vector vector_result_numbers)
next
  case (Normalize v)
  then show ?thesis by (simp add: returns_list_vector vector_result_normalize_s)
next
  case (Cross u v)
  then show ?thesis by (simp add: cross_s_def returns_list_vector vector_result_numbers)
next
  case (Mult u x)
  then show ?thesis by (simp add: mult_s_def returns_list_vector vector_result_numbers)
next
  case (Div u x)
  then show ?thesis by (simp add: div_s_def returns_list_vector vector_result_numbers)
next
  case (QuaternionToRotationMatrix q)
  then show ?thesis
    by (simp add: returns_list_matrix matrix_result_quaternion_to_rotation_matrix_s)
next
  case (MatrixConstantMult m x)
  with assms show ?thesis
    by (simp add: well_formed_def returns_list_matrix matrix_result_matrix_constant_mult_s)
next
  case (MatrixVectorMult m v)
  then show ?thesis by (simp add: returns_list_vector vector_result_matrix_vector_mult_s)
next
  case (VectorMatrixMult v m)
  with assms show ?thesis
    by (simp add: well_formed_def returns_list_vector vector_result_vector_matrix_mult_s)
next
  case (MatrixMult a b)
  with assms show ?thesis
    by (simp add: well_formed_def returns_list_matrix matrix_result_matrix_mult_s)
next
  case (Transpose a)
  then show ?thesis
    using returns_list_matrix[OF matrix_result_new_matrix[of s "zip_star (matrix_at s a)"]]
    by (simp add: transpose_s_def transpose_py_def lift1_Inr)
next
  case (EulerToRotationMatrix e)
  then show ?thesis
    by (simp add: euler_to_rotation_matrix_s_def returns_list_matrix
        matrix_result_bind_new_matrix)
next
  case (RotationMatrixToEuler m)
  with assms show ?thesis
    by (simp add: well_formed_def returns_list_vector vector_result_rotation_matrix_to_euler_s)
next
  case (AxisAngleToQuaternion axis angle)
  then show ?thesis
    by (simp add: axis_angle_to_quaternion_s_def returns_list_vector vector_result_numbers)
next
  case (AxisAngleToRotationMatrix axis angle)
  then show ?thesis
    by (simp add: returns_list_matrix matrix_result_axis_angle_to_rotation_matrix_s)
next
  case (ReshapeTuple a new_shape)
  with assms show ?thesis
    by (simp add: well_formed_def returns_list_matrix matrix_result_reshape_tuple_s)
next
  case (ReshapeInt a new_shape)
  with assms show ?thesis
    using returns_list_vector[OF vector_result_reshape_int_s[of s a new_shape]]
    by (simp add: well_formed_def lift1_Inr)
qed

end
